theory Spec2Isabelle
  imports Main
begin

section \<open>Values of the host language\<close>

text \<open>
  A field of a selector set is a JavaScript string that may be absent: the interface
  declares every field a string, and the page objects build their sets with a cast, so an
  object with a missing field type-checks. \<open>Undefined\<close> is the absent field.
\<close>

datatype jsval = Undefined | Str string

text \<open>\<open>!!v\<close>: a string is truthy when it is not empty, \<open>undefined\<close> is falsy.\<close>

fun truthy :: "jsval \<Rightarrow> bool" where
  "truthy Undefined = False"
| "truthy (Str s) = (s \<noteq> [])"

text \<open>A value inside a template literal \<open>`${v}`\<close>.\<close>

fun to_str :: "jsval \<Rightarrow> string" where
  "to_str Undefined = ''undefined''"
| "to_str (Str s) = s"

text \<open>
  A timeout is a whole number of milliseconds held in a double; a fractional or
  non-finite timeout, and an integer that no double holds, are outside the model.
  \<open>timeout / n\<close> is the quotient of two doubles: the exact quotient rounded to 53
  significant bits, to the nearest and on a tie to the even one; \<open>Math.floor\<close> is taken
  of the rounded quotient. With \<open>n = 0\<close> JavaScript yields an infinity or NaN instead of
  raising, so the result type has those values.
\<close>

datatype jsnum = Num int | PosInfinity | NegInfinity | NaN

text \<open>\<open>a / b\<close> rounded to the nearest integer, a tie to the even one (\<open>0 \<le> a\<close>, \<open>0 < b\<close>).\<close>

definition round_quot :: "int \<Rightarrow> int \<Rightarrow> int" where
  "round_quot a b =
     (let d = a div b; r = a mod b
      in if 2 * r < b then d else if b < 2 * r then d + 1 else if even d then d else d + 1)"

text \<open>
  The exponent of the quotient \<open>a / b\<close> of positive numbers. Below \<open>2 ^ 53\<close> the rounded
  quotient is a multiple of \<open>1 / 2 ^ k\<close>, for the least \<open>k\<close> with \<open>2 ^ 52 \<le> (a / b) * 2 ^ k\<close>;
  from \<open>2 ^ 53\<close> on it is a multiple of \<open>2 ^ e\<close>, for the least \<open>e\<close> with
  \<open>a / b < 2 ^ (53 + e)\<close>.
\<close>

function scale_up :: "int \<Rightarrow> int \<Rightarrow> nat \<Rightarrow> nat" where
  "scale_up a b k = (if a \<le> 0 \<or> b * 2 ^ 52 \<le> a * 2 ^ k then k else scale_up a b (k + 1))"
  by pat_completeness auto
termination
proof (relation "measure (\<lambda>(a, b, k). nat (b * 2 ^ 52 - a * 2 ^ k))")
  show "wf (measure (\<lambda>(a, b, k). nat (b * 2 ^ 52 - a * 2 ^ k)))" by simp
next
  fix a b :: int and k :: nat
  assume "\<not> (a \<le> 0 \<or> b * 2 ^ 52 \<le> a * 2 ^ k)"
  then have "0 < a" and lt: "a * 2 ^ k < b * 2 ^ 52" by auto
  then have "0 < a * 2 ^ k" by simp
  moreover have "a * 2 ^ (k + 1) = 2 * (a * 2 ^ k)" by simp
  ultimately have "nat (b * 2 ^ 52 - a * 2 ^ (k + 1)) < nat (b * 2 ^ 52 - a * 2 ^ k)"
    using lt by linarith
  then show "((a, b, k + 1), (a, b, k)) \<in> measure (\<lambda>(a, b, k). nat (b * 2 ^ 52 - a * 2 ^ k))"
    by simp
qed

function scale_down :: "int \<Rightarrow> int \<Rightarrow> nat \<Rightarrow> nat" where
  "scale_down a b e = (if b \<le> 0 \<or> a < b * 2 ^ (53 + e) then e else scale_down a b (e + 1))"
  by pat_completeness auto
termination
proof (relation "measure (\<lambda>(a, b, e). nat a - e)")
  show "wf (measure (\<lambda>(a, b, e). nat a - e))" by simp
next
  fix a b :: int and e :: nat
  assume "\<not> (b \<le> 0 \<or> a < b * 2 ^ (53 + e))"
  then have "0 < b" and le: "b * 2 ^ (53 + e) \<le> a" by auto
  have "e < 2 ^ (53 + e)"
    by (rule le_less_trans [OF le_add2 less_exp])
  then have "int e < 2 ^ (53 + e)"
    by (metis of_nat_less_iff of_nat_numeral of_nat_power)
  also have "(2::int) ^ (53 + e) \<le> b * 2 ^ (53 + e)" using \<open>0 < b\<close> by simp
  also note le
  finally have "int e < a" .
  then show "((a, b, e + 1), (a, b, e)) \<in> measure (\<lambda>(a, b, e). nat a - e)"
    by simp
qed

declare scale_up.simps [simp del] scale_down.simps [simp del]

text \<open>
  \<open>Math.floor(a / b)\<close> and \<open>Math.ceil(a / b)\<close> for doubles \<open>0 \<le> a\<close> and \<open>0 < b\<close>. The divisor
  of \<open>locate\<close> is at most 6, so the quotient neither overflows nor underflows.
\<close>

definition floor_double_quot :: "int \<Rightarrow> int \<Rightarrow> int" where
  "floor_double_quot a b =
     (if b * 2 ^ 53 \<le> a
      then (let e = scale_down a b 1 in round_quot a (b * 2 ^ e) * 2 ^ e)
      else (let k = scale_up a b 0 in round_quot (a * 2 ^ k) b div 2 ^ k))"

definition ceil_double_quot :: "int \<Rightarrow> int \<Rightarrow> int" where
  "ceil_double_quot a b =
     (if b * 2 ^ 53 \<le> a
      then (let e = scale_down a b 1 in round_quot a (b * 2 ^ e) * 2 ^ e)
      else (let k = scale_up a b 0 in - ((- round_quot (a * 2 ^ k) b) div 2 ^ k)))"

text \<open>\<open>Math.floor(timeout / n)\<close>; for a negative timeout the floor is minus the ceiling.\<close>

definition js_floor_div :: "int \<Rightarrow> nat \<Rightarrow> jsnum" where
  "js_floor_div t n =
     (if n = 0 then (if 0 < t then PosInfinity else if t < 0 then NegInfinity else NaN)
      else if 0 \<le> t then Num (floor_double_quot t (int n))
      else Num (- ceil_double_quot (- t) (int n)))"

text \<open>A parameter with a default value: the default applies when the argument is omitted.\<close>

fun or_default :: "'a option \<Rightarrow> 'a \<Rightarrow> 'a" where
  "or_default None d = d"
| "or_default (Some v) d = v"

text \<open>Decimal rendering of a count inside a template literal.\<close>

definition digit_char :: "nat \<Rightarrow> char" where
  "digit_char d = ''0123456789'' ! d"

fun show_nat :: "nat \<Rightarrow> string" where
  "show_nat n = (if n < 10 then [digit_char n] else show_nat (n div 10) @ [digit_char (n mod 10)])"

declare show_nat.simps [simp del]

section \<open>Data model\<close>

text \<open>\<open>SelectorStrategies\<close> (global.types). The fields \<open>id\<close> and \<open>text\<close> carry a suffix.\<close>

record SelectorStrategies =
  id_field :: jsval
  dataTestId :: jsval
  xpath :: jsval
  css :: jsval
  text_field :: jsval
  role :: jsval

text \<open>
  A Playwright locator is a lazy description of a query: \<open>page.locator(sel)\<close>,
  \<open>page.getByRole(r)\<close>, \<open>page.getByText(t)\<close>, \<open>locator.nth(i)\<close>. Building one does not
  touch the page. Both \<open>locate\<close> and \<open>locateAll\<close> build the locator inside the same try
  block that uses it, so a failure to build one is handled exactly like a failure of the
  use that follows, and is modelled as a failure of that use.
\<close>

datatype Locator =
    PageLocator jsval
  | GetByRole jsval
  | GetByText jsval
  | Nth Locator nat

datatype assertion = ToBeVisible | ToBeHidden | ToBeEnabled | ToBeDisabled

text \<open>
  The browser session is outside this repository. It is a parameter: a record of the
  operations the locator awaits, each over an abstract world \<open>'w\<close> (the page, the clock)
  that the operation may change. A rejected promise is \<open>Inl\<close> of the error's message.
\<close>

record 'w Session =
  session_expect :: "Locator \<Rightarrow> assertion \<Rightarrow> jsnum \<Rightarrow> 'w \<Rightarrow> (string + unit) \<times> 'w"
  session_count :: "Locator \<Rightarrow> 'w \<Rightarrow> (string + nat) \<times> 'w"
  session_waitFor_attached :: "Locator \<Rightarrow> jsnum \<Rightarrow> 'w \<Rightarrow> (string + unit) \<times> 'w"
  session_waitForTimeout :: "int \<Rightarrow> 'w \<Rightarrow> (string + unit) \<times> 'w"
  JSON_stringify :: "SelectorStrategies \<Rightarrow> string"
  Date_now :: "'w \<Rightarrow> int"

text \<open>Every call made on the session is recorded with its arguments and its outcome.\<close>

datatype event =
    Expect Locator assertion jsnum "string + unit"
  | Count Locator "string + nat"
  | WaitForAttached Locator jsnum "string + unit"
  | WaitForTimeout int "string + unit"

datatype level = Debug | Info | Warn | Error

datatype metaval = MStrategies SelectorStrategies | MString string | MNumber int

type_synonym meta = "(string \<times> metaval) list"

type_synonym log_entry = "level \<times> string \<times> meta option"

record 'w state =
  world :: 'w
  calls :: "event list"
  logs :: "log_entry list"

definition logger_debug :: "string \<Rightarrow> meta option \<Rightarrow> 'w state \<Rightarrow> 'w state" where
  "logger_debug msg m st = st\<lparr>logs := logs st @ [(Debug, msg, m)]\<rparr>"

definition logger_warn :: "string \<Rightarrow> meta option \<Rightarrow> 'w state \<Rightarrow> 'w state" where
  "logger_warn msg m st = st\<lparr>logs := logs st @ [(Warn, msg, m)]\<rparr>"

definition logger_error :: "string \<Rightarrow> meta option \<Rightarrow> 'w state \<Rightarrow> 'w state" where
  "logger_error msg m st = st\<lparr>logs := logs st @ [(Error, msg, m)]\<rparr>"

definition expect :: "'w Session \<Rightarrow> Locator \<Rightarrow> assertion \<Rightarrow> jsnum \<Rightarrow> 'w state
    \<Rightarrow> (string + unit) \<times> 'w state" where
  "expect env loc a t st =
     (case session_expect env loc a t (world st) of
        (r, w) \<Rightarrow> (r, st\<lparr>world := w, calls := calls st @ [Expect loc a t r]\<rparr>))"

definition count_matches :: "'w Session \<Rightarrow> Locator \<Rightarrow> 'w state \<Rightarrow> (string + nat) \<times> 'w state" where
  "count_matches env loc st =
     (case session_count env loc (world st) of
        (r, w) \<Rightarrow> (r, st\<lparr>world := w, calls := calls st @ [Count loc r]\<rparr>))"

definition waitFor_attached :: "'w Session \<Rightarrow> Locator \<Rightarrow> jsnum \<Rightarrow> 'w state
    \<Rightarrow> (string + unit) \<times> 'w state" where
  "waitFor_attached env loc t st =
     (case session_waitFor_attached env loc t (world st) of
        (r, w) \<Rightarrow> (r, st\<lparr>world := w, calls := calls st @ [WaitForAttached loc t r]\<rparr>))"

definition waitForTimeout :: "'w Session \<Rightarrow> int \<Rightarrow> 'w state \<Rightarrow> (string + unit) \<times> 'w state" where
  "waitForTimeout env ms st =
     (case session_waitForTimeout env ms (world st) of
        (r, w) \<Rightarrow> (r, st\<lparr>world := w, calls := calls st @ [WaitForTimeout ms r]\<rparr>))"

section \<open>CustomErrors\<close>

datatype ErrorCode =
    ELEMENT_NOT_FOUND
  | PAGE_LOAD_TIMEOUT
  | API_REQUEST_FAILED
  | DATABASE_CONNECTION_FAILED
  | AUTHENTICATION_FAILED
  | PERFORMANCE_THRESHOLD_EXCEEDED
  | TEST_DATA_GENERATION_FAILED
  | CONFIGURATION_ERROR
  | NETWORK_ERROR
  | FILE_OPERATION_FAILED
  | VALIDATION_ERROR
  | TIMEOUT_ERROR
  | ENCRYPTION_ERROR
  | DATABASE_OPERATION_FAILED

text \<open>
  \<open>CustomError\<close>: \<open>name\<close> is the name of the constructing class, \<open>timestamp\<close> the clock at
  construction, \<open>context\<close> is \<open>context || undefined\<close>. The stack trace is left out.
\<close>

record CustomError =
  error_name :: string
  message :: string
  code :: ErrorCode
  details :: "meta option"
  timestamp :: int
  error_context :: "string option"

definition CustomError_new :: "string \<Rightarrow> string \<Rightarrow> ErrorCode \<Rightarrow> meta option \<Rightarrow> string option
    \<Rightarrow> int \<Rightarrow> CustomError" where
  "CustomError_new cls msg c d ctx now =
     \<lparr>error_name = cls, message = msg, code = c, details = d, timestamp = now,
      error_context = (case ctx of None \<Rightarrow> None | Some x \<Rightarrow> if x = [] then None else Some x)\<rparr>"

definition ElementNotFoundError :: "string \<Rightarrow> meta option \<Rightarrow> string option \<Rightarrow> int \<Rightarrow> CustomError" where
  "ElementNotFoundError selector d ctx now =
     CustomError_new ''ElementNotFoundError'' (''Element not found: '' @ selector)
       ELEMENT_NOT_FOUND d ctx now"

definition ConfigurationError :: "string \<Rightarrow> meta option \<Rightarrow> string option \<Rightarrow> int \<Rightarrow> CustomError" where
  "ConfigurationError reason d ctx now =
     CustomError_new ''ConfigurationError'' (''Configuration error: '' @ reason)
       CONFIGURATION_ERROR d ctx now"

text \<open>
  What an operation of the locator can throw: an error of this repository, or whatever the
  session rejected with (Playwright's own error, known here by its message).
\<close>

datatype thrown = Custom CustomError | SessionError string

section \<open>ElementLocator\<close>

record attempt =
  name :: string
  locator :: Locator
  condition :: bool

definition attempts :: "SelectorStrategies \<Rightarrow> attempt list" where
  "attempts strategies =
     [\<lparr>name = ''data-testid'',
       locator = PageLocator (Str (''[data-testid=\"'' @ to_str (dataTestId strategies) @ ''\"]'')),
       condition = truthy (dataTestId strategies)\<rparr>,
      \<lparr>name = ''id'',
       locator = PageLocator (Str (''#'' @ to_str (id_field strategies))),
       condition = truthy (id_field strategies)\<rparr>,
      \<lparr>name = ''css'',
       locator = PageLocator (css strategies),
       condition = truthy (css strategies)\<rparr>,
      \<lparr>name = ''role'',
       locator = GetByRole (role strategies),
       condition = truthy (role strategies)\<rparr>,
      \<lparr>name = ''text'',
       locator = GetByText (text_field strategies),
       condition = truthy (text_field strategies)\<rparr>,
      \<lparr>name = ''xpath'',
       locator = PageLocator (xpath strategies),
       condition = truthy (xpath strategies)\<rparr>]"

definition validAttempts :: "SelectorStrategies \<Rightarrow> attempt list" where
  "validAttempts strategies = filter condition (attempts strategies)"

text \<open>
  The loop of \<open>locate\<close> over \<open>validAttempts.entries()\<close>: \<open>index\<close> is the position of the
  head of the remaining list, \<open>totalStrategies\<close> is \<open>validAttempts.length\<close>. \<open>Some\<close> is the return
  inside the loop, \<open>None\<close> is falling out of it.
\<close>

fun locate_loop :: "'w Session \<Rightarrow> SelectorStrategies \<Rightarrow> jsnum \<Rightarrow> nat \<Rightarrow> nat \<Rightarrow> attempt list
    \<Rightarrow> 'w state \<Rightarrow> Locator option \<times> 'w state" where
  "locate_loop env strategies timeoutPerAttempt totalStrategies index [] st = (None, st)"
| "locate_loop env strategies timeoutPerAttempt totalStrategies index (a # rest) st =
     (let st1 = logger_debug (''Trying strategy: '' @ name a)
                  (Some [(''strategies'', MStrategies strategies)]) st
      in case expect env (locator a) ToBeVisible timeoutPerAttempt st1 of
           (Inr u, st2) \<Rightarrow>
             (Some (locator a),
              if 0 < index
              then logger_warn (''Element found using fallback strategy: '' @ name a)
                     (Some [(''strategies'', MStrategies strategies),
                            (''usedStrategy'', MString (name a)),
                            (''attemptNumber'', MNumber (int index + 1))]) st2
              else logger_debug (''Element found using primary strategy: '' @ name a) None st2)
         | (Inl err, st2) \<Rightarrow>
             locate_loop env strategies timeoutPerAttempt totalStrategies (index + 1) rest
               (logger_debug (''Strategy '' @ name a @ '' failed'')
                  (Some [(''error'', MString err),
                         (''strategyIndex'', MNumber (int index + 1)),
                         (''totalStrategies'', MNumber (int totalStrategies))]) st2))"

definition locate :: "'w Session \<Rightarrow> SelectorStrategies \<Rightarrow> int option \<Rightarrow> 'w state
    \<Rightarrow> (thrown + Locator) \<times> 'w state" where
  "locate env strategies timeout_arg st =
     (let timeout = or_default timeout_arg 30000;
          valid = validAttempts strategies;
          timeoutPerAttempt = js_floor_div timeout (length valid)
      in case locate_loop env strategies timeoutPerAttempt (length valid) 0 valid st of
           (Some loc, st1) \<Rightarrow> (Inr loc, st1)
         | (None, st1) \<Rightarrow>
             (let errorMessage = ''Element not found using any strategy: ''
                                  @ JSON_stringify env strategies;
                  st2 = logger_error errorMessage
                          (Some [(''strategies'', MStrategies strategies),
                                 (''timeout'', MNumber timeout),
                                 (''attemptCount'', MNumber (int (length valid)))]) st1
              in (Inl (Custom (ElementNotFoundError errorMessage
                                 (Some [(''strategies'', MStrategies strategies),
                                        (''timeout'', MNumber timeout)])
                                 None (Date_now env (world st2)))),
                  st2)))"

datatype wait_state = Visible | Hidden | Stable | Enabled | Disabled

fun state_name :: "wait_state \<Rightarrow> string" where
  "state_name Visible = ''visible''"
| "state_name Hidden = ''hidden''"
| "state_name Stable = ''stable''"
| "state_name Enabled = ''enabled''"
| "state_name Disabled = ''disabled''"

text \<open>The switch of \<open>waitForState\<close>: one awaited session call per state, two for \<open>stable\<close>.\<close>

fun await_state :: "'w Session \<Rightarrow> Locator \<Rightarrow> wait_state \<Rightarrow> int \<Rightarrow> 'w state
    \<Rightarrow> (string + unit) \<times> 'w state" where
  "await_state env loc Visible timeout st = expect env loc ToBeVisible (Num timeout) st"
| "await_state env loc Hidden timeout st = expect env loc ToBeHidden (Num timeout) st"
| "await_state env loc Enabled timeout st = expect env loc ToBeEnabled (Num timeout) st"
| "await_state env loc Disabled timeout st = expect env loc ToBeDisabled (Num timeout) st"
| "await_state env loc Stable timeout st =
     (case waitFor_attached env loc (Num timeout) st of
        (Inl err, st1) \<Rightarrow> (Inl err, st1)
      | (Inr u, st1) \<Rightarrow> waitForTimeout env 1000 st1)"

definition waitForState :: "'w Session \<Rightarrow> SelectorStrategies \<Rightarrow> wait_state option \<Rightarrow> int option
    \<Rightarrow> 'w state \<Rightarrow> (thrown + Locator) \<times> 'w state" where
  "waitForState env strategies state_arg timeout_arg st =
     (let state = or_default state_arg Visible;
          timeout = or_default timeout_arg 30000
      in case locate env strategies (Some timeout) st of
           (Inl e, st1) \<Rightarrow> (Inl e, st1)
         | (Inr loc, st1) \<Rightarrow>
             (let st2 = logger_debug (''Waiting for element state: '' @ state_name state)
                          (Some [(''strategies'', MStrategies strategies)]) st1
              in case await_state env loc state timeout st2 of
                   (Inl err, st3) \<Rightarrow> (Inl (SessionError err), st3)
                 | (Inr u, st3) \<Rightarrow>
                     (Inr loc,
                      logger_debug (''Element reached desired state: '' @ state_name state)
                        None st3)))"

definition locateAll_attempts :: "SelectorStrategies \<Rightarrow> Locator list" where
  "locateAll_attempts strategies =
     [PageLocator (Str (''[data-testid=\"'' @ to_str (dataTestId strategies) @ ''\"]'')),
      PageLocator (Str (''#'' @ to_str (id_field strategies))),
      PageLocator (css strategies),
      GetByRole (role strategies),
      GetByText (text_field strategies),
      PageLocator (xpath strategies)]"

fun locateAll_loop :: "'w Session \<Rightarrow> SelectorStrategies \<Rightarrow> Locator list \<Rightarrow> 'w state
    \<Rightarrow> Locator list option \<times> 'w state" where
  "locateAll_loop env strategies [] st = (None, st)"
| "locateAll_loop env strategies (loc # rest) st =
     (case count_matches env loc st of
        (Inr count, st1) \<Rightarrow>
          if 0 < count
          then (Some (map (Nth loc) [0..<count]),
                logger_debug (''Found '' @ show_nat count @ '' elements'')
                  (Some [(''strategies'', MStrategies strategies)]) st1)
          else locateAll_loop env strategies rest st1
      | (Inl err, st1) \<Rightarrow> locateAll_loop env strategies rest st1)"

definition locateAll :: "'w Session \<Rightarrow> SelectorStrategies \<Rightarrow> int option \<Rightarrow> 'w state
    \<Rightarrow> (thrown + Locator list) \<times> 'w state" where
  "locateAll env strategies timeout_arg st =
     (case locateAll_loop env strategies (locateAll_attempts strategies) st of
        (Some elements, st1) \<Rightarrow> (Inr elements, st1)
      | (None, st1) \<Rightarrow>
          (Inr [],
           logger_warn ''No elements found with any strategy''
             (Some [(''strategies'', MStrategies strategies)]) st1))"

definition exists :: "'w Session \<Rightarrow> SelectorStrategies \<Rightarrow> int option \<Rightarrow> 'w state
    \<Rightarrow> (thrown + bool) \<times> 'w state" where
  "exists env strategies timeout_arg st =
     (case locate env strategies (Some (or_default timeout_arg 5000)) st of
        (Inr loc, st1) \<Rightarrow> (Inr True, st1)
      | (Inl e, st1) \<Rightarrow> (Inr False, st1))"

definition getCount :: "'w Session \<Rightarrow> SelectorStrategies \<Rightarrow> 'w state \<Rightarrow> (thrown + nat) \<times> 'w state" where
  "getCount env strategies st =
     (case locateAll env strategies (Some 5000) st of
        (Inr elements, st1) \<Rightarrow> (Inr (length elements), st1)
      | (Inl e, st1) \<Rightarrow> (Inr 0, st1))"

section \<open>Vocabulary of the statements\<close>

text \<open>
  The visibility checks that failed, in order: candidate \<open>a\<close> was checked with timeout \<open>t\<close>
  and the session rejected with message \<open>err\<close>.
\<close>

definition failed_checks :: "jsnum \<Rightarrow> attempt list \<Rightarrow> string list \<Rightarrow> event list" where
  "failed_checks t as errs =
     map (\<lambda>(a, err). Expect (locator a) ToBeVisible t (Inl err)) (zip as errs)"

text \<open>The log entries of \<open>locate\<close>, as it writes them.\<close>

definition trying_entry :: "SelectorStrategies \<Rightarrow> attempt \<Rightarrow> log_entry" where
  "trying_entry s a =
     (Debug, ''Trying strategy: '' @ name a, Some [(''strategies'', MStrategies s)])"

definition failed_entry :: "attempt \<Rightarrow> string \<Rightarrow> nat \<Rightarrow> nat \<Rightarrow> log_entry" where
  "failed_entry a err ordinal n =
     (Debug, ''Strategy '' @ name a @ '' failed'',
      Some [(''error'', MString err), (''strategyIndex'', MNumber (int ordinal)),
            (''totalStrategies'', MNumber (int n))])"

definition fallback_entry :: "SelectorStrategies \<Rightarrow> attempt \<Rightarrow> nat \<Rightarrow> log_entry" where
  "fallback_entry s a ordinal =
     (Warn, ''Element found using fallback strategy: '' @ name a,
      Some [(''strategies'', MStrategies s), (''usedStrategy'', MString (name a)),
            (''attemptNumber'', MNumber (int ordinal))])"

definition primary_entry :: "attempt \<Rightarrow> log_entry" where
  "primary_entry a = (Debug, ''Element found using primary strategy: '' @ name a, None)"

definition not_found_entry :: "'w Session \<Rightarrow> SelectorStrategies \<Rightarrow> int \<Rightarrow> nat \<Rightarrow> log_entry" where
  "not_found_entry env s timeout n =
     (Error, ''Element not found using any strategy: '' @ JSON_stringify env s,
      Some [(''strategies'', MStrategies s), (''timeout'', MNumber timeout),
            (''attemptCount'', MNumber (int n))])"

text \<open>
  The entries of the failed attempts: the candidate at position \<open>j\<close> of the list has
  ordinal \<open>i + j + 1\<close>, where \<open>i\<close> is the index of the head.
\<close>

fun failed_logs :: "SelectorStrategies \<Rightarrow> nat \<Rightarrow> nat \<Rightarrow> attempt list \<Rightarrow> string list
    \<Rightarrow> log_entry list" where
  "failed_logs s n i (a # as) (err # errs) =
     trying_entry s a # failed_entry a err (i + 1) n # failed_logs s n (i + 1) as errs"
| "failed_logs s n i [] errs = []"
| "failed_logs s n i as [] = []"

text \<open>The log entries of \<open>locateAll\<close>, as it writes them.\<close>

definition found_all_entry :: "SelectorStrategies \<Rightarrow> nat \<Rightarrow> log_entry" where
  "found_all_entry s c =
     (Debug, ''Found '' @ show_nat c @ '' elements'', Some [(''strategies'', MStrategies s)])"

definition none_found_entry :: "SelectorStrategies \<Rightarrow> log_entry" where
  "none_found_entry s =
     (Warn, ''No elements found with any strategy'', Some [(''strategies'', MStrategies s)])"

text \<open>The count queries whose outcome was \<open>out\<close>, in order.\<close>

definition count_queries :: "Locator list \<Rightarrow> (string + nat) list \<Rightarrow> event list" where
  "count_queries locs outs = map (\<lambda>(loc, out). Count loc out) (zip locs outs)"

definition no_match :: "string + nat \<Rightarrow> bool" where
  "no_match out = (case out of Inl err \<Rightarrow> True | Inr c \<Rightarrow> c = 0)"

text \<open>
  What the session answers when the locators are counted in order, each in the world the
  previous count left, up to and including the first answer with a match.
\<close>

fun count_answers :: "'w Session \<Rightarrow> Locator list \<Rightarrow> 'w \<Rightarrow> (string + nat) list" where
  "count_answers env [] w = []"
| "count_answers env (loc # rest) w =
     (case session_count env loc w of
        (out, w') \<Rightarrow> if no_match out then out # count_answers env rest w' else [out])"

text \<open>The session assertion that \<open>waitForState\<close> makes for a state; \<open>stable\<close> has none.\<close>

fun state_assertion :: "wait_state \<Rightarrow> assertion option" where
  "state_assertion Visible = Some ToBeVisible"
| "state_assertion Hidden = Some ToBeHidden"
| "state_assertion Enabled = Some ToBeEnabled"
| "state_assertion Disabled = Some ToBeDisabled"
| "state_assertion Stable = None"

text \<open>The log entries of \<open>waitForState\<close>, as it writes them.\<close>

definition waiting_entry :: "SelectorStrategies \<Rightarrow> wait_state \<Rightarrow> log_entry" where
  "waiting_entry s state =
     (Debug, ''Waiting for element state: '' @ state_name state,
      Some [(''strategies'', MStrategies s)])"

definition reached_entry :: "wait_state \<Rightarrow> log_entry" where
  "reached_entry state = (Debug, ''Element reached desired state: '' @ state_name state, None)"

section \<open>An example session\<close>

text \<open>
  A page that does not change: \<open>attached\<close> lists each locator once for every element it
  matches, \<open>visible\<close> lists the locators whose element is visible and enabled. The world
  is the clock in milliseconds; an assertion that fails uses up its timeout (the examples
  on this page pass positive timeouts only). \<open>json\<close> is
  what \<open>JSON.stringify\<close> returns; only the not-found message uses it, and a page on which
  the examples resolve their element gives \<open>{}\<close>.
\<close>

fun holds :: "Locator list \<Rightarrow> Locator list \<Rightarrow> assertion \<Rightarrow> Locator \<Rightarrow> bool" where
  "holds attached visible ToBeVisible loc = (loc \<in> set visible)"
| "holds attached visible ToBeHidden loc = (loc \<notin> set visible)"
| "holds attached visible ToBeEnabled loc = (loc \<in> set visible)"
| "holds attached visible ToBeDisabled loc = False"

fun elapse :: "jsnum \<Rightarrow> int \<Rightarrow> int" where
  "elapse (Num t) clock = clock + max 0 t"
| "elapse t clock = clock"

definition fixed_page :: "Locator list \<Rightarrow> Locator list \<Rightarrow> string \<Rightarrow> int Session" where
  "fixed_page attached visible json =
     \<lparr>session_expect = (\<lambda>loc a t clock.
        if holds attached visible a loc then (Inr (), clock)
        else (Inl ''Timed out'', elapse t clock)),
      session_count = (\<lambda>loc clock. (Inr (count_list attached loc), clock)),
      session_waitFor_attached = (\<lambda>loc t clock.
        if loc \<in> set attached then (Inr (), clock) else (Inl ''Timed out'', elapse t clock)),
      session_waitForTimeout = (\<lambda>ms clock. (Inr (), clock + ms)),
      JSON_stringify = (\<lambda>s. json),
      Date_now = (\<lambda>clock. clock)\<rparr>"

definition start :: "int state" where
  "start = \<lparr>world = 0, calls = [], logs = []\<rparr>"

definition no_strategies :: SelectorStrategies where
  "no_strategies =
     \<lparr>id_field = Str [], dataTestId = Str [], xpath = Str [], css = Str [],
      text_field = Str [], role = Str []\<rparr>"

text \<open>The login button of \<open>LoginPage\<close>: all six strategies are populated.\<close>

definition login_button :: SelectorStrategies where
  "login_button =
     \<lparr>id_field = Str ''login-btn'', dataTestId = Str ''login-submit'',
      xpath = Str ''//button[@type=\"submit\"]'', css = Str ''button[type=\"submit\"]'',
      text_field = Str ''Sign In'', role = Str ''button''\<rparr>"

definition login_page :: "int Session" where
  "login_page = fixed_page (map locator (attempts login_button))
                  (map locator (attempts login_button)) ''{}''"

text \<open>A page with nothing on it, and a selector set with every field empty.\<close>

definition empty_page :: "int Session" where
  "empty_page = fixed_page [] []
     ''{\"dataTestId\":\"\",\"id\":\"\",\"css\":\"\",\"xpath\":\"\",\"text\":\"\",\"role\":\"\"}''"

text \<open>A logo with three populated strategies (css, text, xpath), on a page without it.\<close>

definition logo :: SelectorStrategies where
  "logo =
     \<lparr>id_field = Str [], dataTestId = Str [], xpath = Str ''//header/div'',
      css = Str ''.login_logo'', text_field = Str ''Swag Labs'', role = Str []\<rparr>"

definition logo_json :: string where
  "logo_json = ''{\"dataTestId\":\"\",\"id\":\"\",\"css\":\".login_logo\",\"xpath\":\"//header/div\",\"text\":\"Swag Labs\",\"role\":\"\"}''"

definition blank_page :: "int Session" where
  "blank_page = fixed_page [] [] logo_json"

text \<open>The locator of the first strategy of the login button.\<close>

definition login_locator :: Locator where
  "login_locator = PageLocator (Str ''[data-testid=\"login-submit\"]'')"

text \<open>
  An inventory item, on a page where three elements match its css and two its role, and
  none its data-testid.
\<close>

definition inventory_item :: SelectorStrategies where
  "inventory_item =
     \<lparr>id_field = Str [], dataTestId = Str ''inventory-item'', xpath = Str ''//main/div'',
      css = Str ''.inventory_item'', text_field = Str [], role = Str ''listitem''\<rparr>"

definition inventory_page :: "int Session" where
  "inventory_page =
     fixed_page (replicate 3 (PageLocator (Str ''.inventory_item''))
                 @ replicate 2 (GetByRole (Str ''listitem'')))
       [] ''{}''"

text \<open>A selector set built by a cast from an empty object: every field is absent.\<close>

definition absent_strategies :: SelectorStrategies where
  "absent_strategies =
     \<lparr>id_field = Undefined, dataTestId = Undefined, xpath = Undefined, css = Undefined,
      text_field = Undefined, role = Undefined\<rparr>"

text \<open>Only css and xpath populated, on a page where only the xpath matches.\<close>

definition css_xpath :: SelectorStrategies where
  "css_xpath =
     \<lparr>id_field = Str [], dataTestId = Str [], xpath = Str ''//button'', css = Str ''.submit'',
      text_field = Str [], role = Str []\<rparr>"

definition xpath_page :: "int Session" where
  "xpath_page = fixed_page [PageLocator (Str ''//button'')] [PageLocator (Str ''//button'')] ''{}''"



text \<open>
  A product list whose data-testid is absent and whose other fields are populated, on a
  page where only the xpath matches, twice.
\<close>

definition product_list :: SelectorStrategies where
  "product_list =
     \<lparr>id_field = Str ''inventory_list'', dataTestId = Undefined, xpath = Str ''//main/ul'',
      css = Str ''.inventory_list'', text_field = Str ''Products'', role = Str ''list''\<rparr>"

definition product_page :: "int Session" where
  "product_page = fixed_page (replicate 2 (PageLocator (Str ''//main/ul''))) [] ''{}''"

section \<open>The quotient of doubles\<close>

lemma round_quot_cases:
  "0 < b \<Longrightarrow>
   round_quot a b = a div b \<and> 2 * (a mod b) \<le> b
   \<or> round_quot a b = a div b + 1 \<and> b \<le> 2 * (a mod b)"
  by (auto simp: round_quot_def Let_def)

lemma scale_up_ge: "0 < a \<Longrightarrow> b * 2 ^ 52 \<le> a * 2 ^ scale_up a b k"
proof (induction a b k rule: scale_up.induct)
  case (1 a b k)
  show ?case
  proof (cases "b * 2 ^ 52 \<le> a * 2 ^ k")
    case True
    then show ?thesis by (subst scale_up.simps) simp
  next
    case False
    with "1.prems" have "scale_up a b k = scale_up a b (k + 1)"
      by (subst scale_up.simps) simp
    with "1.IH" "1.prems" False show ?thesis by simp
  qed
qed

lemma scaled_quot:
  fixes a b P :: int
  assumes a: "0 < a" "a \<le> 2 ^ 53" and b: "0 < b" and P: "0 < P"
    and scale: "b * 2 ^ 52 \<le> a * P"
  obtains x where "round_quot (a * P) b = (a div b) * P + x"
    and "0 \<le> x" and "x \<le> P"
    and "a mod b = 0 \<Longrightarrow> x = 0"
    and "a mod b \<noteq> 0 \<Longrightarrow> 0 < x \<and> x < P"
proof -
  define d r where "d = a div b" and "r = a mod b"
  have adr: "a = b * d + r" and r0: "0 \<le> r" and rb: "r < b"
    using b by (simp_all add: d_def r_def)
  define q1 m where "q1 = (r * P) div b" and "m = (r * P) mod b"
  have rP: "r * P = b * q1 + m" and m0: "0 \<le> m" and mb: "m < b"
    using b by (simp_all add: q1_def m_def)
  have aP: "a * P = b * (d * P) + r * P"
    by (simp add: adr algebra_simps)
  have q0: "(a * P) div b = d * P + q1" and m': "(a * P) mod b = m"
    using b by (simp_all add: aP q1_def m_def)
  have "0 \<le> r * P" using r0 P by simp
  then have q1_0: "0 \<le> q1"
    using b by (simp add: q1_def pos_imp_zdiv_nonneg_iff)
  have "r * P < b * P" using rb P by simp
  then have "b * q1 < b * P" using rP m0 by linarith
  then have q1_P: "q1 < P" using b by (simp add: mult_less_cancel_left_pos)
  have bP: "b \<le> 2 * P"
  proof -
    have "a * P \<le> 2 ^ 53 * P" using a P by (simp add: mult_right_mono)
    with scale show ?thesis by simp
  qed
  have odd_contra: False if "b = 2 * P" "r = b - 1 \<or> r = 1"
  proof -
    from that(1) scale have "2 ^ 53 * P \<le> a * P" by simp
    then have "2 ^ 53 \<le> a" using P by (simp add: mult_le_cancel_right)
    with a have a53: "a = 2 ^ 53" by simp
    from that have "odd a"
      by (auto simp: adr)
    with a53 show False by simp
  qed
  from round_quot_cases [OF b, of "a * P"]
  consider (down) "round_quot (a * P) b = d * P + q1" "2 * m \<le> b"
    | (up) "round_quot (a * P) b = d * P + q1 + 1" "b \<le> 2 * m"
    by (auto simp: q0 m')
  then show thesis
  proof cases
    case down
    show thesis
    proof (rule that [of q1])
      show "round_quot (a * P) b = a div b * P + q1"
        using down by (simp add: d_def)
      show "0 \<le> q1" by (rule q1_0)
      show "q1 \<le> P" using q1_P by simp
      show "q1 = 0" if "a mod b = 0"
        using that by (simp add: q1_def r_def)
      show "0 < q1 \<and> q1 < P" if "a mod b \<noteq> 0"
      proof -
        have rpos: "1 \<le> r" using that r0 by (simp add: r_def)
        have "q1 \<noteq> 0"
        proof
          assume z: "q1 = 0"
          with rP have "m = r * P" by simp
          with down(2) have le: "2 * (r * P) \<le> b" by simp
          have "P \<le> r * P" using rpos P by (simp add: mult_le_cancel_right1)
          with le bP have "b = 2 * P" and "r * P = P" by linarith+
          then have "r = 1" using P by simp
          with \<open>b = 2 * P\<close> odd_contra show False by blast
        qed
        with q1_0 q1_P show ?thesis by simp
      qed
    qed
  next
    case up
    have lt: "q1 + 1 < P" if "r \<noteq> 0"
    proof (rule ccontr)
      assume "\<not> q1 + 1 < P"
      with q1_P have q1: "q1 = P - 1" by simp
      with rP have "m = r * P - b * (P - 1)" by simp
      then have "m = b - (b - r) * P" by (simp add: algebra_simps)
      with up(2) have le: "2 * ((b - r) * P) \<le> b" by simp
      have "1 \<le> b - r" using rb by simp
      then have "P \<le> (b - r) * P" using P by (simp add: mult_le_cancel_right1)
      with le bP have "b = 2 * P" and "(b - r) * P = P" by linarith+
      then have "b - r = 1" using P by simp
      then have "r = b - 1" by simp
      with \<open>b = 2 * P\<close> odd_contra show False by blast
    qed
    have rz: "r \<noteq> 0"
    proof
      assume "r = 0"
      then have "m = 0" by (simp add: m_def)
      with up(2) b show False by simp
    qed
    show thesis
    proof (rule that [of "q1 + 1"])
      show "round_quot (a * P) b = a div b * P + (q1 + 1)"
        using up by (simp add: d_def)
      show "0 \<le> q1 + 1" using q1_0 by simp
      show "q1 + 1 \<le> P" using q1_P by simp
      show "q1 + 1 = 0" if "a mod b = 0"
        using that rz by (simp add: r_def)
      show "0 < q1 + 1 \<and> q1 + 1 < P" if "a mod b \<noteq> 0"
        using lt [OF rz] q1_0 by simp
    qed
  qed
qed

text \<open>Up to \<open>2 ^ 53\<close> in magnitude the floored quotient is the integer quotient.\<close>

lemma double_quot_exact:
  fixes a b :: int
  assumes a: "0 \<le> a" "a \<le> 2 ^ 53" and b: "0 < b"
  shows "floor_double_quot a b = a div b"
    and "ceil_double_quot a b = - ((- a) div b)"
proof -
  have "floor_double_quot a b = a div b \<and> ceil_double_quot a b = - ((- a) div b)"
  proof (cases "b * 2 ^ 53 \<le> a")
    case True
    have "2 ^ 53 \<le> b * 2 ^ 53" using b by simp
    with True a have a53: "a = 2 ^ 53" by simp
    with True b have "b = 1" by simp
    with a53 show ?thesis
      by (simp add: floor_double_quot_def ceil_double_quot_def scale_down.simps round_quot_def)
  next
    case False
    show ?thesis
    proof (cases "a = 0")
      case True
      with b False show ?thesis
        by (simp add: floor_double_quot_def ceil_double_quot_def scale_up.simps round_quot_def)
    next
      case nz: False
      with a have pos: "0 < a" by simp
      define P :: int where "P = 2 ^ scale_up a b 0"
      have P: "0 < P" by (simp add: P_def)
      have scale: "b * 2 ^ 52 \<le> a * P"
        unfolding P_def by (rule scale_up_ge [OF pos])
      from scaled_quot [OF pos a(2) b P scale] obtain x where
        rq: "round_quot (a * P) b = (a div b) * P + x" and x0: "0 \<le> x" and xP: "x \<le> P"
        and z: "a mod b = 0 \<Longrightarrow> x = 0" and nz': "a mod b \<noteq> 0 \<Longrightarrow> 0 < x \<and> x < P"
        by blast
      have xlt: "x < P" using z nz' P by (cases "a mod b = 0") auto
      have fl: "round_quot (a * P) b div P = a div b"
        using P x0 xlt by (simp add: rq)
      have "(- round_quot (a * P) b) div P = (- a) div b"
      proof (cases "a mod b = 0")
        case True
        then have "x = 0" by (rule z)
        moreover from True have "b dvd a" by auto
        then have "(- a) div b = - (a div b)" by (simp add: dvd_neg_div)
        moreover have "- (a div b * P) = (- (a div b)) * P" by simp
        then have "(- (a div b * P)) div P = - (a div b)"
          using P by (metis nonzero_mult_div_cancel_right less_irrefl)
        ultimately show ?thesis by (simp add: rq)
      next
        case False
        then have x: "0 < x" "x < P" using nz' by auto
        have "- round_quot (a * P) b = (- (a div b) - 1) * P + (P - x)"
          unfolding rq by (simp add: algebra_simps)
        then have l: "(- round_quot (a * P) b) div P = - (a div b) - 1"
          using x P by simp
        have "0 \<le> a mod b" and rb: "a mod b < b" using b by simp_all
        with False have r: "0 < a mod b" "a mod b < b" by simp_all
        have "- a = (- (a div b) - 1) * b + (b - a mod b)"
          by (simp add: algebra_simps)
        then have "(- a) div b = (- (a div b) - 1) + (b - a mod b) div b"
          using b by (metis div_mult_self3 less_irrefl)
        then have "(- a) div b = - (a div b) - 1"
          using r by simp
        with l show ?thesis by simp
      qed
      with fl False show ?thesis
        by (simp add: floor_double_quot_def ceil_double_quot_def P_def Let_def)
    qed
  qed
  then show "floor_double_quot a b = a div b" and "ceil_double_quot a b = - ((- a) div b)"
    by simp_all
qed

lemma js_floor_div_exact:
  assumes "\<bar>t\<bar> \<le> 2 ^ 53" and "0 < n"
  shows "js_floor_div t n = Num (t div int n)"
proof (cases "0 \<le> t")
  case True
  with assms show ?thesis
    by (simp add: js_floor_div_def double_quot_exact(1))
next
  case False
  with assms have "0 \<le> - t" "- t \<le> 2 ^ 53" "0 < int n" by simp_all
  from double_quot_exact(2) [OF this] False assms show ?thesis
    by (simp add: js_floor_div_def)
qed

section \<open>One iteration of each loop\<close>

lemma locate_loop_step:
  "locate_loop env s t n i (a # rest) st =
     (case expect env (locator a) ToBeVisible t (st\<lparr>logs := logs st @ [trying_entry s a]\<rparr>) of
        (Inr u, st2) \<Rightarrow>
          (Some (locator a),
           st2\<lparr>logs := logs st2 @ [if i = 0 then primary_entry a else fallback_entry s a (i + 1)]\<rparr>)
      | (Inl err, st2) \<Rightarrow>
          locate_loop env s t n (i + 1) rest
            (st2\<lparr>logs := logs st2 @ [failed_entry a err (i + 1) n]\<rparr>))"
  by (simp add: logger_debug_def logger_warn_def trying_entry_def primary_entry_def
        fallback_entry_def failed_entry_def add.commute split: prod.splits sum.splits)

lemma expect_effect:
  assumes "expect env loc a t st = (out, st')"
  shows "calls st' = calls st @ [Expect loc a t out]"
    and "logs st' = logs st"
    and "session_expect env loc a t (world st) = (out, world st')"
  using assms by (auto simp: expect_def split: prod.splits)

lemma locate_loop_char:
  "locate_loop env s t n i atts st = (r, st') \<Longrightarrow>
   \<exists>errs. length errs \<le> length atts \<and>
     (case r of
        None \<Rightarrow> length errs = length atts \<and>
          calls st' = calls st @ failed_checks t atts errs \<and>
          logs st' = logs st @ failed_logs s n i atts errs
      | Some loc \<Rightarrow> length errs < length atts \<and> loc = locator (atts ! length errs) \<and>
          calls st' = calls st @ failed_checks t atts errs
                        @ [Expect loc ToBeVisible t (Inr ())] \<and>
          logs st' = logs st @ failed_logs s n i atts errs
                        @ [trying_entry s (atts ! length errs),
                           if i + length errs = 0 then primary_entry (atts ! length errs)
                           else fallback_entry s (atts ! length errs) (i + length errs + 1)])"
proof (induction atts arbitrary: i st)
  case Nil
  then show ?case by (auto simp: failed_checks_def)
next
  case (Cons a rest)
  obtain out st2 where
    ex: "expect env (locator a) ToBeVisible t (st\<lparr>logs := logs st @ [trying_entry s a]\<rparr>) = (out, st2)"
    by (cases "expect env (locator a) ToBeVisible t (st\<lparr>logs := logs st @ [trying_entry s a]\<rparr>)")
  have c2: "calls st2 = calls st @ [Expect (locator a) ToBeVisible t out]"
    and l2: "logs st2 = logs st @ [trying_entry s a]"
    using expect_effect [OF ex] by simp_all
  show ?case
  proof (cases out)
    case (Inr u)
    with Cons.prems ex have r: "r = Some (locator a)"
      and st': "st' = st2\<lparr>logs := logs st2 @ [if i = 0 then primary_entry a else fallback_entry s a (i + 1)]\<rparr>"
      by (simp_all add: locate_loop_step del: locate_loop.simps)
    show ?thesis
      by (rule exI [of _ "[]"]) (simp add: r st' c2 l2 Inr failed_checks_def)
  next
    case (Inl err)
    define st3 where "st3 = st2\<lparr>logs := logs st2 @ [failed_entry a err (i + 1) n]\<rparr>"
    from Cons.prems ex Inl have rec: "locate_loop env s t n (i + 1) rest st3 = (r, st')"
      by (simp add: locate_loop_step st3_def del: locate_loop.simps)
    have c3: "calls st3 = calls st @ [Expect (locator a) ToBeVisible t (Inl err)]"
      by (simp add: st3_def c2 Inl)
    have l3: "logs st3 = logs st @ [trying_entry s a, failed_entry a err (i + 1) n]"
      by (simp add: st3_def l2)
    from Cons.IH [OF rec] obtain errs where
      len: "length errs \<le> length rest" and
      body: "(case r of
        None \<Rightarrow> length errs = length rest \<and>
          calls st' = calls st3 @ failed_checks t rest errs \<and>
          logs st' = logs st3 @ failed_logs s n (i + 1) rest errs
      | Some loc \<Rightarrow> length errs < length rest \<and> loc = locator (rest ! length errs) \<and>
          calls st' = calls st3 @ failed_checks t rest errs
                        @ [Expect loc ToBeVisible t (Inr ())] \<and>
          logs st' = logs st3 @ failed_logs s n (i + 1) rest errs
                        @ [trying_entry s (rest ! length errs),
                           if i + 1 + length errs = 0 then primary_entry (rest ! length errs)
                           else fallback_entry s (rest ! length errs) (i + 1 + length errs + 1)])"
      by blast
    show ?thesis
      using len body
      by (intro exI [of _ "err # errs"])
         (auto simp: c3 l3 failed_checks_def split: option.splits)
  qed
qed


lemma locate_run:
  assumes "locate env s targ st = (r, st')"
  shows "\<exists>errs. length errs \<le> length (validAttempts s) \<and>
    (case r of
       Inl e \<Rightarrow> length errs = length (validAttempts s) \<and>
         e = Custom (ElementNotFoundError
                (''Element not found using any strategy: '' @ JSON_stringify env s)
                (Some [(''strategies'', MStrategies s),
                       (''timeout'', MNumber (or_default targ 30000))])
                None (Date_now env (world st'))) \<and>
         calls st' = calls st
            @ failed_checks (js_floor_div (or_default targ 30000) (length (validAttempts s)))
                (validAttempts s) errs \<and>
         logs st' = logs st
            @ failed_logs s (length (validAttempts s)) 0 (validAttempts s) errs
            @ [not_found_entry env s (or_default targ 30000) (length (validAttempts s))]
     | Inr loc \<Rightarrow> length errs < length (validAttempts s) \<and>
         loc = locator (validAttempts s ! length errs) \<and>
         calls st' = calls st
            @ failed_checks (js_floor_div (or_default targ 30000) (length (validAttempts s)))
                (validAttempts s) errs
            @ [Expect loc ToBeVisible
                 (js_floor_div (or_default targ 30000) (length (validAttempts s))) (Inr ())] \<and>
         logs st' = logs st
            @ failed_logs s (length (validAttempts s)) 0 (validAttempts s) errs
            @ [trying_entry s (validAttempts s ! length errs),
               if length errs = 0 then primary_entry (validAttempts s ! length errs)
               else fallback_entry s (validAttempts s ! length errs) (length errs + 1)])"
proof -
  let ?T = "or_default targ 30000"
  let ?V = "validAttempts s"
  let ?t = "js_floor_div ?T (length ?V)"
  obtain r0 st1 where loop: "locate_loop env s ?t (length ?V) 0 ?V st = (r0, st1)"
    by (cases "locate_loop env s ?t (length ?V) 0 ?V st")
  from locate_loop_char [OF loop] obtain errs where
    len: "length errs \<le> length ?V" and
    body: "(case r0 of
        None \<Rightarrow> length errs = length ?V \<and>
          calls st1 = calls st @ failed_checks ?t ?V errs \<and>
          logs st1 = logs st @ failed_logs s (length ?V) 0 ?V errs
      | Some loc \<Rightarrow> length errs < length ?V \<and> loc = locator (?V ! length errs) \<and>
          calls st1 = calls st @ failed_checks ?t ?V errs
                        @ [Expect loc ToBeVisible ?t (Inr ())] \<and>
          logs st1 = logs st @ failed_logs s (length ?V) 0 ?V errs
                        @ [trying_entry s (?V ! length errs),
                           if 0 + length errs = 0 then primary_entry (?V ! length errs)
                           else fallback_entry s (?V ! length errs) (0 + length errs + 1)])"
    by blast
  show ?thesis
  proof (cases r0)
    case None
    with assms loop have r: "r = Inl (Custom (ElementNotFoundError
                (''Element not found using any strategy: '' @ JSON_stringify env s)
                (Some [(''strategies'', MStrategies s), (''timeout'', MNumber ?T)])
                None (Date_now env (world st'))))"
      and st': "st' = st1\<lparr>logs := logs st1 @ [not_found_entry env s ?T (length ?V)]\<rparr>"
      by (auto simp: locate_def Let_def logger_error_def not_found_entry_def)
    from body None show ?thesis
      by (intro exI [of _ errs]) (simp add: r st')
  next
    case (Some loc)
    with assms loop have r: "r = Inr loc" and st': "st' = st1"
      by (auto simp: locate_def Let_def)
    from body Some show ?thesis
      by (intro exI [of _ errs]) (simp add: r st')
  qed
qed

lemma locateAll_loop_step:
  "locateAll_loop env s (loc # rest) st =
     (case count_matches env loc st of
        (Inr c, st1) \<Rightarrow>
          if 0 < c
          then (Some (map (Nth loc) [0..<c]), st1\<lparr>logs := logs st1 @ [found_all_entry s c]\<rparr>)
          else locateAll_loop env s rest st1
      | (Inl err, st1) \<Rightarrow> locateAll_loop env s rest st1)"
  by (simp add: logger_debug_def found_all_entry_def split: prod.splits sum.splits)

lemma count_matches_effect:
  assumes "count_matches env loc st = (out, st')"
  shows "calls st' = calls st @ [Count loc out]"
    and "logs st' = logs st"
    and "session_count env loc (world st) = (out, world st')"
  using assms by (auto simp: count_matches_def split: prod.splits)

lemma locateAll_loop_char:
  "locateAll_loop env s locs st = (r, st') \<Longrightarrow>
   \<exists>outs. length outs \<le> length locs \<and> (\<forall>out\<in>set outs. no_match out) \<and>
     (case r of
        None \<Rightarrow> length outs = length locs \<and>
          calls st' = calls st @ count_queries locs outs \<and> logs st' = logs st
      | Some els \<Rightarrow> length outs < length locs \<and>
          (\<exists>c. 0 < c \<and> els = map (Nth (locs ! length outs)) [0..<c] \<and>
             calls st' = calls st @ count_queries locs outs
                           @ [Count (locs ! length outs) (Inr c)] \<and>
             logs st' = logs st @ [found_all_entry s c]))"
proof (induction locs arbitrary: st)
  case Nil
  then show ?case by (auto simp: count_queries_def)
next
  case (Cons loc rest)
  obtain out st1 where cm: "count_matches env loc st = (out, st1)"
    by (cases "count_matches env loc st")
  note eff = count_matches_effect [OF cm]
  show ?case
  proof (cases "case out of Inl err \<Rightarrow> False | Inr c \<Rightarrow> 0 < c")
    case True
    then obtain c where out: "out = Inr c" and pos: "0 < c"
      by (auto split: sum.splits)
    with Cons.prems cm have r: "r = Some (map (Nth loc) [0..<c])"
      and st': "st' = st1\<lparr>logs := logs st1 @ [found_all_entry s c]\<rparr>"
      by (simp_all add: locateAll_loop_step del: locateAll_loop.simps)
    show ?thesis
      by (rule exI [of _ "[]"]) (use pos in \<open>simp add: r st' eff out count_queries_def\<close>)
  next
    case False
    then have nm: "no_match out"
      by (auto simp: no_match_def split: sum.splits)
    from False Cons.prems cm have rec: "locateAll_loop env s rest st1 = (r, st')"
      by (auto simp: locateAll_loop_step simp del: locateAll_loop.simps split: sum.splits)
    from Cons.IH [OF rec] obtain outs where
      len: "length outs \<le> length rest" and all: "\<forall>out\<in>set outs. no_match out" and
      body: "(case r of
        None \<Rightarrow> length outs = length rest \<and>
          calls st' = calls st1 @ count_queries rest outs \<and> logs st' = logs st1
      | Some els \<Rightarrow> length outs < length rest \<and>
          (\<exists>c. 0 < c \<and> els = map (Nth (rest ! length outs)) [0..<c] \<and>
             calls st' = calls st1 @ count_queries rest outs
                           @ [Count (rest ! length outs) (Inr c)] \<and>
             logs st' = logs st1 @ [found_all_entry s c]))"
      by blast
    show ?thesis
      using len all nm body
      by (intro exI [of _ "out # outs"])
         (auto simp: eff count_queries_def split: option.splits)
  qed
qed

lemma locate_loop_all_fail:
  "\<forall>a\<in>set atts. \<forall>w. isl (fst (session_expect env (locator a) ToBeVisible t w)) \<Longrightarrow>
   fst (locate_loop env s t n i atts st) = None"
proof (induction atts arbitrary: i st)
  case Nil
  then show ?case by simp
next
  case (Cons a rest)
  let ?st1 = "st\<lparr>logs := logs st @ [trying_entry s a]\<rparr>"
  from Cons.prems have "isl (fst (session_expect env (locator a) ToBeVisible t (world ?st1)))"
    by simp
  then obtain err st2 where ex: "expect env (locator a) ToBeVisible t ?st1 = (Inl err, st2)"
    by (cases "session_expect env (locator a) ToBeVisible t (world ?st1)")
       (auto simp: expect_def isl_def)
  from Cons.prems have "\<forall>a\<in>set rest. \<forall>w. isl (fst (session_expect env (locator a) ToBeVisible t w))"
    by simp
  from Cons.IH [OF this] show ?case
    by (simp add: locate_loop_step ex del: locate_loop.simps)
qed

lemma waitForState_step:
  "waitForState env s state_arg timeout_arg st =
     (case locate env s (Some (or_default timeout_arg 30000)) st of
        (Inl e, st1) \<Rightarrow> (Inl e, st1)
      | (Inr loc, st1) \<Rightarrow>
          (case await_state env loc (or_default state_arg Visible) (or_default timeout_arg 30000)
                  (st1\<lparr>logs := logs st1 @ [waiting_entry s (or_default state_arg Visible)]\<rparr>) of
             (Inl err, st3) \<Rightarrow> (Inl (SessionError err), st3)
           | (Inr u, st3) \<Rightarrow>
               (Inr loc, st3\<lparr>logs := logs st3 @ [reached_entry (or_default state_arg Visible)]\<rparr>)))"
  by (simp add: waitForState_def Let_def logger_debug_def waiting_entry_def reached_entry_def
        split: prod.splits sum.splits)

lemma locateAll_run:
  assumes "locateAll env s targ st = (r, st')"
  shows "\<exists>outs. (\<forall>out\<in>set outs. no_match out) \<and>
     ((r = Inr [] \<and> length outs = length (locateAll_attempts s) \<and>
        calls st' = calls st @ count_queries (locateAll_attempts s) outs \<and>
        logs st' = logs st @ [none_found_entry s])
      \<or> (\<exists>c. 0 < c \<and> length outs < length (locateAll_attempts s) \<and>
           r = Inr (map (Nth (locateAll_attempts s ! length outs)) [0..<c]) \<and>
           calls st' = calls st @ count_queries (locateAll_attempts s) outs
                         @ [Count (locateAll_attempts s ! length outs) (Inr c)] \<and>
           logs st' = logs st @ [found_all_entry s c]))"
proof -
  obtain r0 st1 where loop: "locateAll_loop env s (locateAll_attempts s) st = (r0, st1)"
    by (cases "locateAll_loop env s (locateAll_attempts s) st")
  from locateAll_loop_char [OF loop] obtain outs where
    nm: "\<forall>out\<in>set outs. no_match out" and
    body: "(case r0 of
        None \<Rightarrow> length outs = length (locateAll_attempts s) \<and>
          calls st1 = calls st @ count_queries (locateAll_attempts s) outs \<and> logs st1 = logs st
      | Some els \<Rightarrow> length outs < length (locateAll_attempts s) \<and>
          (\<exists>c. 0 < c \<and> els = map (Nth (locateAll_attempts s ! length outs)) [0..<c] \<and>
             calls st1 = calls st @ count_queries (locateAll_attempts s) outs
                           @ [Count (locateAll_attempts s ! length outs) (Inr c)] \<and>
             logs st1 = logs st @ [found_all_entry s c]))"
    by blast
  show ?thesis
  proof (cases r0)
    case None
    with assms loop have "r = Inr []" and "st' = st1\<lparr>logs := logs st1 @ [none_found_entry s]\<rparr>"
      by (auto simp: locateAll_def logger_warn_def none_found_entry_def)
    with body None nm show ?thesis
      by (intro exI [of _ outs]) simp
  next
    case (Some els)
    with assms loop have "r = Inr els" and "st' = st1"
      by (auto simp: locateAll_def)
    with body Some nm show ?thesis
      by (intro exI [of _ outs]) auto
  qed
qed

lemma locateAll_loop_no_match:
  "\<forall>loc\<in>set locs. \<forall>w. no_match (fst (session_count env loc w)) \<Longrightarrow>
   fst (locateAll_loop env s locs st) = None"
proof (induction locs arbitrary: st)
  case Nil
  then show ?case by simp
next
  case (Cons loc rest)
  from Cons.prems have nm: "no_match (fst (session_count env loc (world st)))"
    by simp
  obtain out st1 where cm: "count_matches env loc st = (out, st1)"
    by (cases "count_matches env loc st")
  from count_matches_effect(3) [OF cm] nm have "no_match out"
    by simp
  moreover from Cons.prems have "fst (locateAll_loop env s rest st1) = None"
    by (intro Cons.IH) simp
  ultimately show ?case
    by (auto simp: locateAll_loop_step cm no_match_def simp del: locateAll_loop.simps
          split: sum.splits)
qed



text \<open>The count queries of \<open>locateAll\<close> are the answers of the session, in order.\<close>

lemma locateAll_loop_calls:
  "calls (snd (locateAll_loop env s locs st))
     = calls st @ count_queries locs (count_answers env locs (world st))"
proof (induction locs arbitrary: st)
  case Nil
  show ?case by (simp add: count_queries_def)
next
  case (Cons loc rest)
  obtain out w where sc: "session_count env loc (world st) = (out, w)"
    by (cases "session_count env loc (world st)")
  let ?st1 = "st\<lparr>world := w, calls := calls st @ [Count loc out]\<rparr>"
  have cm: "count_matches env loc st = (out, ?st1)"
    by (simp add: count_matches_def sc)
  show ?case
  proof (cases "no_match out")
    case True
    then have "locateAll_loop env s (loc # rest) st = locateAll_loop env s rest ?st1"
      by (auto simp: locateAll_loop_step cm no_match_def simp del: locateAll_loop.simps
            split: sum.splits)
    with Cons.IH [of ?st1] True show ?thesis
      by (simp add: sc count_queries_def)
  next
    case False
    then obtain c where out: "out = Inr c" and "0 < c"
      by (auto simp: no_match_def split: sum.splits)
    then have "calls (snd (locateAll_loop env s (loc # rest) st)) = calls st @ [Count loc out]"
      by (simp add: locateAll_loop_step cm del: locateAll_loop.simps)
    with False show ?thesis
      by (simp add: sc count_queries_def)
  qed
qed

lemma count_answers_butlast:
  "\<forall>out\<in>set (butlast (count_answers env locs w)). no_match out"
proof (induction locs arbitrary: w)
  case Nil
  show ?case by simp
next
  case (Cons loc rest)
  obtain out w' where sc: "session_count env loc w = (out, w')"
    by (cases "session_count env loc w")
  show ?case
  proof (cases "no_match out")
    case True
    with Cons.IH [of w'] show ?thesis
      by (simp add: sc)
  next
    case False
    then show ?thesis by (simp add: sc)
  qed
qed

lemma count_answers_all:
  "\<forall>out\<in>set (count_answers env locs w). no_match out \<Longrightarrow>
   length (count_answers env locs w) = length locs"
proof (induction locs arbitrary: w)
  case Nil
  show ?case by simp
next
  case (Cons loc rest)
  obtain out w' where sc: "session_count env loc w = (out, w')"
    by (cases "session_count env loc w")
  show ?case
  proof (cases "no_match out")
    case True
    with Cons.prems have "\<forall>out\<in>set (count_answers env rest w'). no_match out"
      by (simp add: sc)
    from Cons.IH [OF this] True show ?thesis
      by (simp add: sc)
  next
    case False
    with Cons.prems show ?thesis by (simp add: sc)
  qed
qed

text \<open>The definitions that evaluate a run on the example session.\<close>

lemmas run_defs = locate_def Let_def validAttempts_def attempts_def fixed_page_def start_def
  expect_def logger_debug_def logger_warn_def logger_error_def js_floor_div_exact

lemmas wait_defs = waitForState_def locate_def Let_def validAttempts_def attempts_def
  fixed_page_def start_def expect_def logger_debug_def logger_warn_def logger_error_def
  js_floor_div_exact

lemmas all_defs = locateAll_def locateAll_attempts_def count_matches_def fixed_page_def start_def
  logger_debug_def logger_warn_def

section \<open>Resolution in priority order\<close>

text \<open>
  C1. When all six fields of the selector set are non-empty and the visibility check of
  every candidate passes within its share of the budget, \<open>locate\<close> returns the locator
  of the data-testid strategy. The candidates are data-testid, id, css, role, text, xpath
  in that order, and the only call made on the session is the check of the first.
\<close>

theorem locate_priority_order:
  assumes pop: "truthy (dataTestId s)" "truthy (id_field s)" "truthy (css s)"
               "truthy (role s)" "truthy (text_field s)" "truthy (xpath s)"
    and res: "\<forall>a\<in>set (attempts s).
                fst (session_expect env (locator a) ToBeVisible
                       (js_floor_div (or_default targ 30000) 6) (world st)) = Inr ()"
  shows "map name (validAttempts s) = [''data-testid'', ''id'', ''css'', ''role'', ''text'', ''xpath'']
       \<and> fst (locate env s targ st)
           = Inr (PageLocator (Str (''[data-testid=\"'' @ to_str (dataTestId s) @ ''\"]'')))
       \<and> calls (snd (locate env s targ st))
           = calls st @ [Expect (PageLocator (Str (''[data-testid=\"'' @ to_str (dataTestId s) @ ''\"]'')))
                           ToBeVisible (js_floor_div (or_default targ 30000) 6) (Inr ())]"
proof -
  define first where
    "first = PageLocator (Str (''[data-testid=\"'' @ to_str (dataTestId s) @ ''\"]''))"
  define t where "t = js_floor_div (or_default targ 30000) 6"
  have valid: "validAttempts s = attempts s"
    using pop by (simp add: validAttempts_def attempts_def)
  obtain a rest where att: "attempts s = a # rest" and a: "locator a = first"
    and len: "length (attempts s) = 6"
    by (simp add: attempts_def first_def)
  have names: "map name (validAttempts s)
      = [''data-testid'', ''id'', ''css'', ''role'', ''text'', ''xpath'']"
    unfolding valid by (simp add: attempts_def)
  have "a \<in> set (attempts s)"
    by (simp add: att)
  from bspec [OF res this]
  have ok: "fst (session_expect env first ToBeVisible t (world st)) = Inr ()"
    by (simp add: a t_def)
  have tpa: "js_floor_div (or_default targ 30000) 6 = t"
    by (simp add: t_def)
  obtain st1 where loop: "locate_loop env s t 6 0 (attempts s) st = (Some first, st1)"
    and c1: "calls st1 = calls st @ [Expect first ToBeVisible t (Inr ())]"
    using ok unfolding att
    by (cases "session_expect env first ToBeVisible t (world st)")
       (simp add: locate_loop_step expect_def a del: locate_loop.simps)
  have "locate env s targ st = (Inr first, st1)"
    by (simp add: locate_def Let_def valid len tpa loop)
  with names c1 show ?thesis
    by (simp add: first_def t_def)
qed


theorem locate_priority_order_witness:
  "truthy (dataTestId login_button) \<and> truthy (id_field login_button)
   \<and> truthy (css login_button) \<and> truthy (role login_button)
   \<and> truthy (text_field login_button) \<and> truthy (xpath login_button)
   \<and> map (\<lambda>a. fst (session_expect login_page (locator a) ToBeVisible (Num 5000) (world start)))
         (attempts login_button) = replicate 6 (Inr ())
   \<and> fst (locate login_page login_button None start)
       = Inr (PageLocator (Str ''[data-testid=\"login-submit\"]''))"
proof -
  have pop: "truthy (dataTestId login_button)" "truthy (id_field login_button)"
    "truthy (css login_button)" "truthy (role login_button)"
    "truthy (text_field login_button)" "truthy (xpath login_button)"
    by (simp_all add: login_button_def)
  have res: "\<forall>a\<in>set (attempts login_button).
          fst (session_expect login_page (locator a) ToBeVisible
                 (js_floor_div (or_default None 30000) 6) (world start)) = Inr ()"
    by (simp add: login_page_def fixed_page_def)
  have all: "map (\<lambda>a. fst (session_expect login_page (locator a) ToBeVisible (Num 5000) (world start)))
         (attempts login_button) = replicate 6 (Inr ())"
    by (simp add: login_page_def fixed_page_def attempts_def numeral_eq_Suc)
  from locate_priority_order [OF pop res] pop all show ?thesis
    by (simp add: login_button_def)
qed

section \<open>A selector set without candidates\<close>

text \<open>
  C2, as the claim states it, fails: for the selector set with six empty fields \<open>locate\<close>
  throws the not-found error (\<open>ElementNotFoundError\<close>, code \<open>ELEMENT_NOT_FOUND\<close>), not a
  configuration error.
\<close>

theorem locate_no_candidates_counterexample:
  "fst (locate empty_page no_strategies None start)
     = Inl (Custom \<lparr>error_name = ''ElementNotFoundError'',
          message = ''Element not found: Element not found using any strategy: {\"dataTestId\":\"\",\"id\":\"\",\"css\":\"\",\"xpath\":\"\",\"text\":\"\",\"role\":\"\"}'',
          code = ELEMENT_NOT_FOUND,
          details = Some [(''strategies'', MStrategies no_strategies),
                          (''timeout'', MNumber 30000)],
          timestamp = 0, error_context = None\<rparr>)
   \<and> ELEMENT_NOT_FOUND \<noteq> CONFIGURATION_ERROR"
  by (simp add: locate_def Let_def validAttempts_def attempts_def no_strategies_def
        empty_page_def fixed_page_def start_def logger_error_def ElementNotFoundError_def
        CustomError_new_def)

text \<open>
  C2, amended. When none of the six fields is populated, \<open>locate\<close> fails at once: it makes
  no call on the session and leaves the world as it was, writes one error entry with an
  attempt count of zero, and throws the same \<open>ElementNotFoundError\<close> as on exhaustion,
  carrying the selector set and the timeout.
\<close>

theorem locate_no_candidates:
  assumes "\<not> truthy (dataTestId s)" "\<not> truthy (id_field s)" "\<not> truthy (css s)"
          "\<not> truthy (role s)" "\<not> truthy (text_field s)" "\<not> truthy (xpath s)"
  shows "locate env s targ st
     = (Inl (Custom (ElementNotFoundError
                (''Element not found using any strategy: '' @ JSON_stringify env s)
                (Some [(''strategies'', MStrategies s),
                       (''timeout'', MNumber (or_default targ 30000))])
                None (Date_now env (world st)))),
        st\<lparr>logs := logs st @ [not_found_entry env s (or_default targ 30000) 0]\<rparr>)"
proof -
  have "validAttempts s = []"
    using assms by (simp add: validAttempts_def attempts_def)
  then show ?thesis
    by (simp add: locate_def Let_def logger_error_def not_found_entry_def)
qed

theorem locate_no_candidates_witness:
  "locate empty_page no_strategies (Some 2000) start
     = (Inl (Custom (ElementNotFoundError
                (''Element not found using any strategy: '' @ JSON_stringify empty_page no_strategies)
                (Some [(''strategies'', MStrategies no_strategies), (''timeout'', MNumber 2000)])
                None 0)),
        \<lparr>world = 0, calls = [],
         logs = [not_found_entry empty_page no_strategies 2000 0]\<rparr>)"
  using locate_no_candidates [of no_strategies empty_page "Some 2000" start]
  by (simp add: no_strategies_def start_def empty_page_def fixed_page_def)

section \<open>Division of the timeout budget\<close>




section \<open>Exhaustion\<close>

text \<open>
  C4, as the claim states it, fails: the error thrown on exhaustion carries the selector
  set and the timeout, and no attempt count. For the logo (three candidates) on a page
  without it, the details of the error have the two keys \<open>strategies\<close> and \<open>timeout\<close>.
\<close>

theorem locate_exhaustion_payload_counterexample:
  "fst (locate blank_page logo (Some 3000) start)
     = Inl (Custom \<lparr>error_name = ''ElementNotFoundError'',
          message = ''Element not found: Element not found using any strategy: '' @ logo_json,
          code = ELEMENT_NOT_FOUND,
          details = Some [(''strategies'', MStrategies logo), (''timeout'', MNumber 3000)],
          timestamp = 3000, error_context = None\<rparr>)
   \<and> length (validAttempts logo) = 3
   \<and> map_of [(''strategies'', MStrategies logo), (''timeout'', MNumber 3000)] ''attemptCount''
       = None"
  by (simp add: run_defs logo_def blank_page_def ElementNotFoundError_def CustomError_new_def)

text \<open>
  C4, amended. With at least one populated candidate, if the visibility check of every
  candidate fails, \<open>locate\<close> throws an \<open>ElementNotFoundError\<close> whose details are the full
  selector set and the total timeout. The number of attempts is written to the error
  entry of the log, which is the last entry. Each candidate was checked once, in order,
  and the error reaches the caller.
\<close>

theorem locate_exhaustion:
  assumes ne: "validAttempts s \<noteq> []"
    and fail: "\<forall>a\<in>set (validAttempts s). \<forall>w.
                 isl (fst (session_expect env (locator a) ToBeVisible
                        (js_floor_div (or_default targ 30000) (length (validAttempts s))) w))"
  shows "\<exists>st' errs.
     locate env s targ st
       = (Inl (Custom (ElementNotFoundError
                  (''Element not found using any strategy: '' @ JSON_stringify env s)
                  (Some [(''strategies'', MStrategies s),
                         (''timeout'', MNumber (or_default targ 30000))])
                  None (Date_now env (world st')))),
          st')
     \<and> length errs = length (validAttempts s)
     \<and> calls st' = calls st
          @ failed_checks (js_floor_div (or_default targ 30000) (length (validAttempts s)))
              (validAttempts s) errs
     \<and> last (logs st')
         = not_found_entry env s (or_default targ 30000) (length (validAttempts s))"
proof -
  let ?V = "validAttempts s"
  let ?T = "or_default targ 30000"
  obtain r st' where run: "locate env s targ st = (r, st')"
    by (cases "locate env s targ st")
  have "fst (locate_loop env s (js_floor_div ?T (length ?V)) (length ?V) 0 ?V st) = None"
    by (rule locate_loop_all_fail [OF fail])
  then have "isl r"
    using run by (auto simp: locate_def Let_def split: prod.splits option.splits)
  then obtain e where r: "r = Inl e"
    by (cases r) auto
  from locate_run [OF run] r obtain errs where
    "length errs = length ?V" and
    "e = Custom (ElementNotFoundError
                (''Element not found using any strategy: '' @ JSON_stringify env s)
                (Some [(''strategies'', MStrategies s), (''timeout'', MNumber ?T)])
                None (Date_now env (world st')))" and
    "calls st' = calls st @ failed_checks (js_floor_div ?T (length ?V)) ?V errs" and
    "logs st' = logs st @ failed_logs s (length ?V) 0 ?V errs
            @ [not_found_entry env s ?T (length ?V)]"
    by auto
  then show ?thesis
    using run r by (intro exI [of _ st'] exI [of _ errs]) simp
qed

theorem locate_exhaustion_witness:
  "validAttempts logo \<noteq> []
   \<and> list_all (\<lambda>a. isl (fst (session_expect blank_page (locator a) ToBeVisible (Num 1000) 0)))
       (validAttempts logo)
   \<and> fst (locate blank_page logo (Some 3000) start)
       = Inl (Custom (ElementNotFoundError
                (''Element not found using any strategy: '' @ logo_json)
                (Some [(''strategies'', MStrategies logo), (''timeout'', MNumber 3000)])
                None 3000))
   \<and> length (calls (snd (locate blank_page logo (Some 3000) start))) = 3
   \<and> last (logs (snd (locate blank_page logo (Some 3000) start)))
       = not_found_entry blank_page logo 3000 3"
proof -
  have ne: "validAttempts logo \<noteq> []"
    by (simp add: validAttempts_def attempts_def logo_def)
  have fail: "\<forall>a\<in>set (validAttempts logo). \<forall>w.
                 isl (fst (session_expect blank_page (locator a) ToBeVisible
                        (js_floor_div (or_default (Some 3000) 30000) (length (validAttempts logo))) w))"
    by (simp add: blank_page_def fixed_page_def)
  have ev: "list_all (\<lambda>a. isl (fst (session_expect blank_page (locator a) ToBeVisible (Num 1000) 0)))
       (validAttempts logo)"
    by (simp add: blank_page_def fixed_page_def validAttempts_def attempts_def logo_def)
  have r: "fst (locate blank_page logo (Some 3000) start)
       = Inl (Custom (ElementNotFoundError
                (''Element not found using any strategy: '' @ logo_json)
                (Some [(''strategies'', MStrategies logo), (''timeout'', MNumber 3000)])
                None 3000))"
    by (simp add: run_defs logo_def blank_page_def)
  have c: "length (calls (snd (locate blank_page logo (Some 3000) start))) = 3"
    by (simp add: run_defs logo_def blank_page_def)
  have l: "last (logs (snd (locate blank_page logo (Some 3000) start)))
       = not_found_entry blank_page logo 3000 3"
    by (simp add: run_defs logo_def blank_page_def not_found_entry_def)
  from locate_exhaustion [OF ne fail, of start] ne ev r c l show ?thesis
    by simp
qed

section \<open>Waiting for a state\<close>

text \<open>
  C5, as the claim states it, fails: when the element resolves and the state assertion
  fails, \<open>waitForState\<close> rethrows what the session threw, not the not-found error of
  \<open>locate\<close>. The login button is visible and stays so; waiting for it to be hidden ends
  with the session's own error.
\<close>

theorem waitForState_failure_counterexample:
  "fst (locate login_page login_button (Some 1000) start) = Inr login_locator
   \<and> fst (waitForState login_page login_button (Some Hidden) (Some 1000) start)
       = Inl (SessionError ''Timed out'')"
  by (simp add: wait_defs login_page_def login_button_def login_locator_def)

text \<open>
  C5, amended. For a state among visible, hidden, enabled and disabled and a timeout \<open>T\<close>,
  \<open>waitForState\<close> first runs \<open>locate\<close> with \<open>T\<close> as the budget. If that fails, its not-found
  error is rethrown and nothing more is done. Otherwise one assertion of the requested
  state is made on the resolved locator with timeout \<open>T\<close> (the session does the polling):
  when it passes the locator is returned, when it fails the session's error is thrown.
\<close>

theorem waitForState_resolves_then_asserts:
  assumes sa: "state_assertion state = Some a"
    and run: "waitForState env s (Some state) targ st = (r, st')"
  shows "case locate env s (Some (or_default targ 30000)) st of
           (Inl e, st1) \<Rightarrow> r = Inl e \<and> st' = st1
         | (Inr loc, st1) \<Rightarrow>
             (\<exists>out. calls st' = calls st1 @ [Expect loc a (Num (or_default targ 30000)) out]
                \<and> r = (case out of Inl err \<Rightarrow> Inl (SessionError err) | Inr u \<Rightarrow> Inr loc))"
proof (cases "locate env s (Some (or_default targ 30000)) st")
  case (Pair r0 st1)
  show ?thesis
  proof (cases r0)
    case (Inl e)
    with Pair run show ?thesis
      by (auto simp: waitForState_def Let_def)
  next
    case (Inr loc)
    define st2 where "st2 = st1\<lparr>logs := logs st1 @ [waiting_entry s state]\<rparr>"
    have c2: "calls st2 = calls st1"
      by (simp add: st2_def)
    have aw: "await_state env loc state (or_default targ 30000) st2
            = expect env loc a (Num (or_default targ 30000)) st2"
      using sa by (cases state) auto
    obtain out st3 where ex: "expect env loc a (Num (or_default targ 30000)) st2 = (out, st3)"
      by (cases "expect env loc a (Num (or_default targ 30000)) st2")
    from run Pair Inr aw ex
    have r: "r = (case out of Inl err \<Rightarrow> Inl (SessionError err) | Inr u \<Rightarrow> Inr loc)"
      and c: "calls st' = calls st3"
      by (auto simp: waitForState_step st2_def [symmetric] split: sum.splits)
    from expect_effect(1) [OF ex]
    have "calls st3 = calls st1 @ [Expect loc a (Num (or_default targ 30000)) out]"
      by (simp add: c2)
    with r c Pair Inr show ?thesis
      by auto
  qed
qed

theorem waitForState_resolves_then_asserts_witness:
  "state_assertion Visible = Some ToBeVisible
   \<and> waitForState login_page login_button (Some Visible) (Some 1000) start
       = (Inr login_locator,
          \<lparr>world = 0,
           calls = [Expect login_locator ToBeVisible (Num 166) (Inr ()),
                    Expect login_locator ToBeVisible (Num 1000) (Inr ())],
           logs = [trying_entry login_button (hd (attempts login_button)),
                   primary_entry (hd (attempts login_button)),
                   waiting_entry login_button Visible, reached_entry Visible]\<rparr>)"
proof -
  have sa: "state_assertion Visible = Some ToBeVisible"
    by simp
  have run: "waitForState login_page login_button (Some Visible) (Some 1000) start
       = (Inr login_locator,
          \<lparr>world = 0,
           calls = [Expect login_locator ToBeVisible (Num 166) (Inr ()),
                    Expect login_locator ToBeVisible (Num 1000) (Inr ())],
           logs = [trying_entry login_button (hd (attempts login_button)),
                   primary_entry (hd (attempts login_button)),
                   waiting_entry login_button Visible, reached_entry Visible]\<rparr>)"
    by (simp add: wait_defs login_page_def login_button_def login_locator_def trying_entry_def
          primary_entry_def waiting_entry_def reached_entry_def)
  from waitForState_resolves_then_asserts [OF sa run] sa run show ?thesis
    by simp
qed

section \<open>All matches of the first matching strategy\<close>

text \<open>
  C6. \<open>locateAll\<close> queries the count of the six strategies in the priority order of
  \<open>locate\<close>. At the first strategy whose count \<open>c\<close> is not zero it returns the \<open>c\<close> matches
  of that strategy, \<open>nth(0)\<close> to \<open>nth(c - 1)\<close>, and queries no further strategy; every
  earlier query gave zero or failed. When all six give zero or fail it returns the empty
  list. It never throws.
\<close>

theorem locateAll_first_nonempty:
  assumes "locateAll env s targ st = (r, st')"
  shows "locateAll_attempts s = map locator (attempts s)
   \<and> (\<exists>outs. (\<forall>out\<in>set outs. no_match out) \<and>
        ((r = Inr [] \<and> length outs = 6 \<and>
            calls st' = calls st @ count_queries (locateAll_attempts s) outs)
         \<or> (\<exists>c. 0 < c \<and> length outs < 6 \<and>
               r = Inr (map (Nth (locateAll_attempts s ! length outs)) [0..<c]) \<and>
               calls st' = calls st @ count_queries (locateAll_attempts s) outs
                             @ [Count (locateAll_attempts s ! length outs) (Inr c)])))"
proof -
  have len: "length (locateAll_attempts s) = 6"
    by (simp add: locateAll_attempts_def)
  have same: "locateAll_attempts s = map locator (attempts s)"
    by (simp add: locateAll_attempts_def attempts_def)
  from locateAll_run [OF assms] show ?thesis
    unfolding len using same by blast
qed

theorem locateAll_first_nonempty_witness:
  "locateAll inventory_page inventory_item None start
     = (Inr [Nth (PageLocator (Str ''.inventory_item'')) 0,
             Nth (PageLocator (Str ''.inventory_item'')) 1,
             Nth (PageLocator (Str ''.inventory_item'')) 2],
        \<lparr>world = 0,
         calls = [Count (PageLocator (Str ''[data-testid=\"inventory-item\"]'')) (Inr 0),
                  Count (PageLocator (Str ''#'')) (Inr 0),
                  Count (PageLocator (Str ''.inventory_item'')) (Inr 3)],
         logs = [found_all_entry inventory_item 3]\<rparr>)"
proof -
  have run: "locateAll inventory_page inventory_item None start
     = (Inr [Nth (PageLocator (Str ''.inventory_item'')) 0,
             Nth (PageLocator (Str ''.inventory_item'')) 1,
             Nth (PageLocator (Str ''.inventory_item'')) 2],
        \<lparr>world = 0,
         calls = [Count (PageLocator (Str ''[data-testid=\"inventory-item\"]'')) (Inr 0),
                  Count (PageLocator (Str ''#'')) (Inr 0),
                  Count (PageLocator (Str ''.inventory_item'')) (Inr 3)],
         logs = [found_all_entry inventory_item 3]\<rparr>)"
    by (simp add: all_defs inventory_page_def inventory_item_def found_all_entry_def
          numeral_eq_Suc upt_rec)
  from locateAll_first_nonempty [OF run] run show ?thesis
    by simp
qed

section \<open>The wrappers that do not throw\<close>

text \<open>
  C7. \<open>exists\<close> returns a boolean in every case: true when \<open>locate\<close>, called with the
  given timeout (5000 when omitted), succeeds, false when it throws; it leaves the state
  \<open>locate\<close> left. \<open>getCount\<close> returns a number in every case: the length of the result of
  \<open>locateAll\<close>. For an element that is never visible and never matched, \<open>exists\<close> is false
  and \<open>getCount\<close> is zero.
\<close>

theorem exists_getCount_never_raise:
  "fst (exists env s targ st) = Inr (\<not> isl (fst (locate env s (Some (or_default targ 5000)) st)))
   \<and> snd (exists env s targ st) = snd (locate env s (Some (or_default targ 5000)) st)
   \<and> (\<exists>els. fst (locateAll env s (Some 5000) st) = Inr els
          \<and> fst (getCount env s st) = Inr (length els))
   \<and> snd (getCount env s st) = snd (locateAll env s (Some 5000) st)
   \<and> ((\<forall>loc t w. isl (fst (session_expect env loc ToBeVisible t w)))
        \<and> (\<forall>loc w. no_match (fst (session_count env loc w)))
       \<longrightarrow> fst (exists env s targ st) = Inr False \<and> fst (getCount env s st) = Inr 0)"
proof -
  have ex: "fst (exists env s targ st)
              = Inr (\<not> isl (fst (locate env s (Some (or_default targ 5000)) st)))"
    and ex_st: "snd (exists env s targ st) = snd (locate env s (Some (or_default targ 5000)) st)"
    by (auto simp: exists_def split: prod.splits sum.splits)
  obtain r st' where run: "locateAll env s (Some 5000) st = (r, st')"
    by (cases "locateAll env s (Some 5000) st")
  from locateAll_run [OF run] obtain els where r: "r = Inr els"
    by blast
  have gc: "fst (getCount env s st) = Inr (length els)"
    and gc_st: "snd (getCount env s st) = snd (locateAll env s (Some 5000) st)"
    by (simp_all add: getCount_def run r)
  have absent: "fst (exists env s targ st) = Inr False \<and> fst (getCount env s st) = Inr 0"
    if vis: "\<forall>loc t w. isl (fst (session_expect env loc ToBeVisible t w))"
      and cnt: "\<forall>loc w. no_match (fst (session_count env loc w))"
  proof -
    have "fst (locate_loop env s
                 (js_floor_div (or_default targ 5000) (length (validAttempts s)))
                 (length (validAttempts s)) 0 (validAttempts s) st) = None"
      by (rule locate_loop_all_fail) (simp add: vis)
    then have "isl (fst (locate env s (Some (or_default targ 5000)) st))"
      by (auto simp: locate_def Let_def split: prod.splits option.splits)
    with ex have e: "fst (exists env s targ st) = Inr False"
      by simp
    have "fst (locateAll_loop env s (locateAll_attempts s) st) = None"
      by (rule locateAll_loop_no_match) (simp add: cnt)
    then have "fst (locateAll env s (Some 5000) st) = Inr []"
      by (auto simp: locateAll_def split: prod.splits option.splits)
    with run r gc have "fst (getCount env s st) = Inr 0"
      by simp
    with e show ?thesis by simp
  qed
  from ex ex_st run r gc gc_st absent show ?thesis
    by auto
qed

theorem exists_getCount_never_raise_witness:
  "fst (exists blank_page logo None start) = Inr False
   \<and> world (snd (exists blank_page logo None start)) = 4998
   \<and> fst (getCount blank_page logo start) = Inr 0
   \<and> fst (exists login_page login_button None start) = Inr True
   \<and> fst (getCount inventory_page inventory_item start) = Inr 3"
proof -
  have vis: "\<forall>loc t w. isl (fst (session_expect blank_page loc ToBeVisible t w))"
    by (simp add: blank_page_def fixed_page_def)
  have cnt: "\<forall>loc w. no_match (fst (session_count blank_page loc w))"
    by (simp add: blank_page_def fixed_page_def no_match_def)
  have w: "world (snd (exists blank_page logo None start)) = 4998"
    by (simp add: exists_def run_defs blank_page_def logo_def)
  have t: "fst (exists login_page login_button None start) = Inr True"
    by (simp add: exists_def run_defs login_page_def login_button_def)
  have c: "fst (getCount inventory_page inventory_item start) = Inr 3"
    by (simp add: getCount_def all_defs inventory_page_def inventory_item_def
          numeral_eq_Suc upt_rec)
  from exists_getCount_never_raise [of blank_page logo None start] vis cnt
  have "fst (exists blank_page logo None start) = Inr False
      \<and> fst (getCount blank_page logo start) = Inr 0"
    by blast
  with w t c show ?thesis
    by simp
qed

section \<open>The log of a resolution\<close>

text \<open>
  C8. Every attempt of \<open>locate\<close> writes a debug entry naming the strategy tried, and every
  failed attempt a second debug entry with the error and the ordinal. A success of the
  first candidate writes a debug entry and no warning; a success of a later candidate
  writes a warning with the strategy used and its ordinal. With only css and xpath
  populated and only the xpath visible, \<open>locate\<close> returns the xpath locator and warns
  with strategy xpath, attempt 2.
\<close>

theorem locate_logs_attempts:
  assumes "locate env s targ st = (r, st')"
  shows "\<exists>errs.
     calls st' = calls st
       @ failed_checks (js_floor_div (or_default targ 30000) (length (validAttempts s)))
           (validAttempts s) errs
       @ (case r of
            Inr loc \<Rightarrow> [Expect loc ToBeVisible
                          (js_floor_div (or_default targ 30000) (length (validAttempts s)))
                          (Inr ())]
          | Inl e \<Rightarrow> []) \<and>
     logs st' = logs st
       @ failed_logs s (length (validAttempts s)) 0 (validAttempts s) errs
       @ (case r of
            Inr loc \<Rightarrow>
              [trying_entry s (validAttempts s ! length errs),
               if length errs = 0 then primary_entry (validAttempts s ! length errs)
               else fallback_entry s (validAttempts s ! length errs) (length errs + 1)]
          | Inl e \<Rightarrow>
              [not_found_entry env s (or_default targ 30000) (length (validAttempts s))]) \<and>
     (case r of
        Inr loc \<Rightarrow> length errs < length (validAttempts s)
                   \<and> loc = locator (validAttempts s ! length errs)
      | Inl e \<Rightarrow> length errs = length (validAttempts s))"
proof -
  from locate_run [OF assms] obtain errs where
    body: "(case r of
       Inl e \<Rightarrow> length errs = length (validAttempts s) \<and>
         e = Custom (ElementNotFoundError
                (''Element not found using any strategy: '' @ JSON_stringify env s)
                (Some [(''strategies'', MStrategies s),
                       (''timeout'', MNumber (or_default targ 30000))])
                None (Date_now env (world st'))) \<and>
         calls st' = calls st
            @ failed_checks (js_floor_div (or_default targ 30000) (length (validAttempts s)))
                (validAttempts s) errs \<and>
         logs st' = logs st
            @ failed_logs s (length (validAttempts s)) 0 (validAttempts s) errs
            @ [not_found_entry env s (or_default targ 30000) (length (validAttempts s))]
     | Inr loc \<Rightarrow> length errs < length (validAttempts s) \<and>
         loc = locator (validAttempts s ! length errs) \<and>
         calls st' = calls st
            @ failed_checks (js_floor_div (or_default targ 30000) (length (validAttempts s)))
                (validAttempts s) errs
            @ [Expect loc ToBeVisible
                 (js_floor_div (or_default targ 30000) (length (validAttempts s))) (Inr ())] \<and>
         logs st' = logs st
            @ failed_logs s (length (validAttempts s)) 0 (validAttempts s) errs
            @ [trying_entry s (validAttempts s ! length errs),
               if length errs = 0 then primary_entry (validAttempts s ! length errs)
               else fallback_entry s (validAttempts s ! length errs) (length errs + 1)])"
    by blast
  show ?thesis
  proof (cases r)
    case (Inl e)
    with body show ?thesis
      by (intro exI [of _ errs]) simp
  next
    case (Inr loc)
    with body show ?thesis
      by (intro exI [of _ errs]) simp
  qed
qed

theorem locate_logs_attempts_witness:
  "map name (validAttempts css_xpath) = [''css'', ''xpath'']
   \<and> locate xpath_page css_xpath (Some 2000) start
       = (Inr (PageLocator (Str ''//button'')),
          \<lparr>world = 1000,
           calls = [Expect (PageLocator (Str ''.submit'')) ToBeVisible (Num 1000) (Inl ''Timed out''),
                    Expect (PageLocator (Str ''//button'')) ToBeVisible (Num 1000) (Inr ())],
           logs = [(Debug, ''Trying strategy: css'', Some [(''strategies'', MStrategies css_xpath)]),
                   (Debug, ''Strategy css failed'',
                    Some [(''error'', MString ''Timed out''), (''strategyIndex'', MNumber 1),
                          (''totalStrategies'', MNumber 2)]),
                   (Debug, ''Trying strategy: xpath'', Some [(''strategies'', MStrategies css_xpath)]),
                   (Warn, ''Element found using fallback strategy: xpath'',
                    Some [(''strategies'', MStrategies css_xpath),
                          (''usedStrategy'', MString ''xpath''),
                          (''attemptNumber'', MNumber 2)])]\<rparr>)"
proof -
  have n: "map name (validAttempts css_xpath) = [''css'', ''xpath'']"
    by (simp add: validAttempts_def attempts_def css_xpath_def)
  have run: "locate xpath_page css_xpath (Some 2000) start
       = (Inr (PageLocator (Str ''//button'')),
          \<lparr>world = 1000,
           calls = [Expect (PageLocator (Str ''.submit'')) ToBeVisible (Num 1000) (Inl ''Timed out''),
                    Expect (PageLocator (Str ''//button'')) ToBeVisible (Num 1000) (Inr ())],
           logs = [(Debug, ''Trying strategy: css'', Some [(''strategies'', MStrategies css_xpath)]),
                   (Debug, ''Strategy css failed'',
                    Some [(''error'', MString ''Timed out''), (''strategyIndex'', MNumber 1),
                          (''totalStrategies'', MNumber 2)]),
                   (Debug, ''Trying strategy: xpath'', Some [(''strategies'', MStrategies css_xpath)]),
                   (Warn, ''Element found using fallback strategy: xpath'',
                    Some [(''strategies'', MStrategies css_xpath),
                          (''usedStrategy'', MString ''xpath''),
                          (''attemptNumber'', MNumber 2)])]\<rparr>)"
    by (simp add: run_defs xpath_page_def css_xpath_def)
  have run': "locate xpath_page css_xpath (Some 2000) start
      = (fst (locate xpath_page css_xpath (Some 2000) start),
         snd (locate xpath_page css_xpath (Some 2000) start))"
    by simp
  from n run have goal: ?thesis
    by simp
  from locate_logs_attempts [OF run'] goal show ?thesis
    by - assumption
qed

section \<open>Resolution asserts visibility\<close>



section \<open>The candidates of locateAll\<close>

text \<open>
  C10, as the claim states it, fails: not all six queries are attempted for every
  selector set. For the login button, whose data-testid matches, \<open>locateAll\<close> makes the
  first of its six queries and no other.
\<close>

theorem locateAll_candidates_unfiltered_counterexample:
  "length (locateAll_attempts login_button) = 6
   \<and> calls (snd (locateAll login_page login_button None start)) = [Count login_locator (Inr 1)]"
  by (simp add: all_defs attempts_def login_page_def login_button_def login_locator_def)

text \<open>
  C10, amended. The candidates of \<open>locateAll\<close> are the six locators of the attempts of
  \<open>locate\<close> without its filter, whatever the fields hold: an absent data-testid gives the
  selector \<open>[data-testid="undefined"]\<close>. The queries made are the counts the session
  answers for these candidates in order, up to and including the first with a match:
  every query before the last had no match, none is skipped for an empty or absent
  field, and all six are made when none has a match. The timeout argument has no effect
  on the result or on the state.
\<close>

theorem locateAll_candidates_unfiltered:
  "locateAll_attempts s = map locator (attempts s)
   \<and> length (locateAll_attempts s) = 6
   \<and> (dataTestId s = Undefined \<longrightarrow>
        locateAll_attempts s ! 0 = PageLocator (Str ''[data-testid=\"undefined\"]''))
   \<and> calls (snd (locateAll env s targ st))
       = calls st @ count_queries (locateAll_attempts s)
                      (count_answers env (locateAll_attempts s) (world st))
   \<and> (\<forall>out\<in>set (butlast (count_answers env (locateAll_attempts s) (world st))). no_match out)
   \<and> ((\<forall>out\<in>set (count_answers env (locateAll_attempts s) (world st)). no_match out) \<longrightarrow>
        length (count_answers env (locateAll_attempts s) (world st)) = 6)
   \<and> locateAll env s targ st = locateAll env s targ' st"
proof (intro conjI impI)
  show "locateAll_attempts s = map locator (attempts s)"
    by (simp add: locateAll_attempts_def attempts_def)
  show len: "length (locateAll_attempts s) = 6"
    by (simp add: locateAll_attempts_def)
  show "locateAll_attempts s ! 0 = PageLocator (Str ''[data-testid=\"undefined\"]'')"
    if "dataTestId s = Undefined"
    using that by (simp add: locateAll_attempts_def)
  show "locateAll env s targ st = locateAll env s targ' st"
    by (simp add: locateAll_def)
  show "\<forall>out\<in>set (butlast (count_answers env (locateAll_attempts s) (world st))). no_match out"
    by (rule count_answers_butlast)
  show "length (count_answers env (locateAll_attempts s) (world st)) = 6"
    if "\<forall>out\<in>set (count_answers env (locateAll_attempts s) (world st)). no_match out"
    using count_answers_all [OF that] len by simp
  have "calls (snd (locateAll env s targ st))
      = calls (snd (locateAll_loop env s (locateAll_attempts s) st))"
    by (auto simp: locateAll_def logger_warn_def split: prod.splits option.splits)
  then show "calls (snd (locateAll env s targ st))
       = calls st @ count_queries (locateAll_attempts s)
                      (count_answers env (locateAll_attempts s) (world st))"
    by (simp add: locateAll_loop_calls)
qed

theorem locateAll_candidates_unfiltered_witness:
  "dataTestId product_list = Undefined
   \<and> map (\<lambda>a. (name a, condition a)) (attempts product_list)
       = [(''data-testid'', False), (''id'', True), (''css'', True), (''role'', True),
          (''text'', True), (''xpath'', True)]
   \<and> count_answers product_page (locateAll_attempts product_list) (world start)
       = [Inr 0, Inr 0, Inr 0, Inr 0, Inr 0, Inr 2]
   \<and> calls (snd (locateAll product_page product_list None start))
       = [Count (PageLocator (Str ''[data-testid=\"undefined\"]'')) (Inr 0),
          Count (PageLocator (Str ''#inventory_list'')) (Inr 0),
          Count (PageLocator (Str ''.inventory_list'')) (Inr 0),
          Count (GetByRole (Str ''list'')) (Inr 0),
          Count (GetByText (Str ''Products'')) (Inr 0),
          Count (PageLocator (Str ''//main/ul'')) (Inr 2)]
   \<and> fst (locateAll product_page product_list None start)
       = Inr [Nth (PageLocator (Str ''//main/ul'')) 0, Nth (PageLocator (Str ''//main/ul'')) 1]
   \<and> locateAll product_page product_list (Some 1) start
       = locateAll product_page product_list (Some 30000) start"
proof -
  have u: "dataTestId product_list = Undefined"
    by (simp add: product_list_def)
  have n: "map (\<lambda>a. (name a, condition a)) (attempts product_list)
       = [(''data-testid'', False), (''id'', True), (''css'', True), (''role'', True),
          (''text'', True), (''xpath'', True)]"
    by (simp add: attempts_def product_list_def)
  have atts: "locateAll_attempts product_list
       = [PageLocator (Str ''[data-testid=\"undefined\"]''),
          PageLocator (Str ''#inventory_list''),
          PageLocator (Str ''.inventory_list''),
          GetByRole (Str ''list''),
          GetByText (Str ''Products''),
          PageLocator (Str ''//main/ul'')]"
    by (simp add: locateAll_attempts_def product_list_def)
  have ans: "count_answers product_page (locateAll_attempts product_list) (world start)
       = [Inr 0, Inr 0, Inr 0, Inr 0, Inr 0, Inr 2]"
    unfolding atts
    by (simp add: product_page_def fixed_page_def start_def no_match_def numeral_eq_Suc)
  have r: "fst (locateAll product_page product_list None start)
       = Inr [Nth (PageLocator (Str ''//main/ul'')) 0, Nth (PageLocator (Str ''//main/ul'')) 1]"
    by (simp add: all_defs product_page_def product_list_def numeral_eq_Suc upt_rec)
  from locateAll_candidates_unfiltered
         [of product_list product_page None start "Some 1"]
  have c: "calls (snd (locateAll product_page product_list None start))
       = calls start @ count_queries (locateAll_attempts product_list)
           (count_answers product_page (locateAll_attempts product_list) (world start))"
    by blast
  have c': "calls (snd (locateAll product_page product_list None start))
       = [Count (PageLocator (Str ''[data-testid=\"undefined\"]'')) (Inr 0),
          Count (PageLocator (Str ''#inventory_list'')) (Inr 0),
          Count (PageLocator (Str ''.inventory_list'')) (Inr 0),
          Count (GetByRole (Str ''list'')) (Inr 0),
          Count (GetByText (Str ''Products'')) (Inr 0),
          Count (PageLocator (Str ''//main/ul'')) (Inr 2)]"
    unfolding c ans unfolding atts by (simp add: count_queries_def start_def)
  from locateAll_candidates_unfiltered
         [of product_list product_page "Some 1" start "Some 30000"]
  have t: "locateAll product_page product_list (Some 1) start
       = locateAll product_page product_list (Some 30000) start"
    by blast
  from u n ans c' r t show ?thesis
    by simp
qed

end
